theory Spec2Isabelle
  imports Main "HOL-Library.Word"
begin

unbundle bit_operations_syntax

section \<open>JavaScript values used by the backend\<close>

text \<open>
  An optional string property of a JavaScript object is a \<open>string option\<close>:
  \<open>None\<close> is \<^verbatim>\<open>undefined\<close> (the property is absent), \<open>Some s\<close> is the string
  \<open>s\<close>. A string is truthy when it is not empty; \<^verbatim>\<open>undefined\<close> is falsy.
\<close>

fun truthy :: "string option \<Rightarrow> bool" where
  "truthy None = False"
| "truthy (Some s) = (s \<noteq> [])"

text \<open>\<^verbatim>\<open>a || b\<close> on two optional strings: \<open>a\<close> when it is truthy, else \<open>b\<close>.\<close>

definition js_or :: "string option \<Rightarrow> string option \<Rightarrow> string option" where
  "js_or a b = (if truthy a then a else b)"

text \<open>\<^verbatim>\<open>a || 'literal'\<close>: always a string.\<close>

definition or_default :: "string option \<Rightarrow> string \<Rightarrow> string" where
  "or_default a d = (case js_or a (Some d) of Some s \<Rightarrow> s | None \<Rightarrow> d)"

text \<open>
  A property read on an object literal, \<^verbatim>\<open>map[key]\<close>. The literal's own keys come
  first; a key that is not its own is looked up on \<^verbatim>\<open>Object.prototype\<close>, whose
  members are functions and objects, never strings. The key \<^verbatim>\<open>undefined\<close> is
  converted to the string \<^verbatim>\<open>'undefined'\<close>.
\<close>

datatype js_member = Str string | ProtoMember string

definition object_prototype_keys :: "string list" where
  "object_prototype_keys =
    [''constructor'', ''__defineGetter__'', ''__defineSetter__'', ''hasOwnProperty'',
     ''__lookupGetter__'', ''__lookupSetter__'', ''isPrototypeOf'', ''propertyIsEnumerable'',
     ''toString'', ''valueOf'', ''__proto__'', ''toLocaleString'']"

definition literal_lookup :: "(string \<times> string) list \<Rightarrow> string option \<Rightarrow> js_member option" where
  "literal_lookup m key =
    (let k = (case key of None \<Rightarrow> ''undefined'' | Some s \<Rightarrow> s) in
     case map_of m k of
       Some v \<Rightarrow> Some (Str v)
     | None \<Rightarrow> if k \<in> set object_prototype_keys then Some (ProtoMember k) else None)"

text \<open>\<^verbatim>\<open>map[key] || 'literal'\<close>: an inherited member is truthy and is returned as it is.\<close>

definition lookup_or :: "(string \<times> string) list \<Rightarrow> string option \<Rightarrow> string \<Rightarrow> js_member" where
  "lookup_or m key d =
    (case literal_lookup m key of
       Some (Str v) \<Rightarrow> if v \<noteq> [] then Str v else Str d
     | Some (ProtoMember k) \<Rightarrow> ProtoMember k
     | None \<Rightarrow> Str d)"

section \<open>Event shapes\<close>

text \<open>The canonical (Google-shaped) event, as the translator reads and builds it.\<close>

record event_time =
  dateTime :: "string option"
  date :: "string option"
  timeZone :: "string option"

record attendee =
  email :: "string option"
  displayName :: "string option"
  responseStatus :: "js_member option"

record canonical_event =
  g_id :: "string option"
  summary :: "string option"
  description :: "string option"
  g_start :: "event_time option"
  g_end :: "event_time option"
  g_location :: "string option"
  g_attendees :: "attendee list option"
  htmlLink :: "string option"

text \<open>The Microsoft Graph event, restricted to the properties the translator touches.\<close>

record itemBody =
  contentType :: "string option"
  content :: "string option"

record dateTimeTimeZone =
  o_dateTime :: "string option"
  o_timeZone :: "string option"

record outlook_location =
  loc_displayName :: "string option"

record emailAddress =
  address :: "string option"
  name :: "string option"

record outlook_status =
  response :: "string option"

record outlook_attendee =
  emailAddress :: "emailAddress option"
  attendee_type :: "string option"
  status :: "outlook_status option"

record outlook_event =
  o_id :: "string option"
  subject :: "string option"
  body :: "itemBody option"
  o_start :: "dateTimeTimeZone option"
  o_end :: "dateTimeTimeZone option"
  o_location :: "outlook_location option"
  o_attendees :: "outlook_attendee list option"
  webLink :: "string option"

text \<open>Optional chaining \<^verbatim>\<open>obj?.field\<close>: \<^verbatim>\<open>undefined\<close> when the object is.\<close>

definition opt_chain :: "'a option \<Rightarrow> ('a \<Rightarrow> 'b option) \<Rightarrow> 'b option" where
  "opt_chain obj field = (case obj of None \<Rightarrow> None | Some x \<Rightarrow> field x)"

section \<open>The Outlook event translator\<close>

definition convertOutlookResponseStatus :: "string option \<Rightarrow> js_member" where
  "convertOutlookResponseStatus outlookStatus =
    lookup_or
      [(''accepted'', ''accepted''),
       (''declined'', ''declined''),
       (''tentativelyAccepted'', ''tentative''),
       (''notResponded'', ''needsAction''),
       (''organizer'', ''accepted'')]
      outlookStatus ''needsAction''"


definition transformOutlookAttendee :: "outlook_attendee \<Rightarrow> attendee" where
  "transformOutlookAttendee a =
    \<lparr> email = opt_chain (emailAddress a) address,
      displayName = opt_chain (emailAddress a) name,
      responseStatus = Some (convertOutlookResponseStatus (opt_chain (status a) response)) \<rparr>"

definition transformOutlookEventToGoogle :: "outlook_event \<Rightarrow> canonical_event" where
  "transformOutlookEventToGoogle outlookEvent =
    \<lparr> g_id = o_id outlookEvent,
      summary = subject outlookEvent,
      description = Some (or_default (opt_chain (body outlookEvent) content) []),
      g_start = Some \<lparr> dateTime = opt_chain (o_start outlookEvent) o_dateTime,
                       date = None,
                       timeZone = Some (or_default (opt_chain (o_start outlookEvent) o_timeZone) ''UTC'') \<rparr>,
      g_end = Some \<lparr> dateTime = opt_chain (o_end outlookEvent) o_dateTime,
                     date = None,
                     timeZone = Some (or_default (opt_chain (o_end outlookEvent) o_timeZone) ''UTC'') \<rparr>,
      g_location = Some (or_default (opt_chain (o_location outlookEvent) loc_displayName) []),
      g_attendees =
        Some (map transformOutlookAttendee
               (case o_attendees outlookEvent of None \<Rightarrow> [] | Some as \<Rightarrow> as)),
      htmlLink = webLink outlookEvent \<rparr>"

definition transformGoogleAttendee :: "attendee \<Rightarrow> outlook_attendee" where
  "transformGoogleAttendee a =
    \<lparr> emailAddress = Some \<lparr> address = email a, name = js_or (displayName a) (email a) \<rparr>,
      attendee_type = Some ''required'',
      status = None \<rparr>"

definition transformGoogleEventToOutlook :: "canonical_event \<Rightarrow> outlook_event" where
  "transformGoogleEventToOutlook googleEvent =
    \<lparr> o_id = None,
      subject = summary googleEvent,
      body = Some \<lparr> contentType = Some ''HTML'',
                    content = Some (or_default (description googleEvent) []) \<rparr>,
      o_start = Some \<lparr> o_dateTime = js_or (opt_chain (g_start googleEvent) dateTime)
                                         (opt_chain (g_start googleEvent) date),
                       o_timeZone = Some (or_default (opt_chain (g_start googleEvent) timeZone) ''UTC'') \<rparr>,
      o_end = Some \<lparr> o_dateTime = js_or (opt_chain (g_end googleEvent) dateTime)
                                       (opt_chain (g_end googleEvent) date),
                     o_timeZone = Some (or_default (opt_chain (g_end googleEvent) timeZone) ''UTC'') \<rparr>,
      o_location =
        (if truthy (g_location googleEvent)
         then Some \<lparr> loc_displayName = g_location googleEvent \<rparr> else None),
      o_attendees =
        (case g_attendees googleEvent of
           None \<Rightarrow> None
         | Some as \<Rightarrow> if length as > 0 then Some (map transformGoogleAttendee as) else None),
      webLink = None \<rparr>"

text \<open>Canonical to Outlook and back.\<close>

definition roundtrip :: "canonical_event \<Rightarrow> canonical_event" where
  "roundtrip e = transformOutlookEventToGoogle (transformGoogleEventToOutlook e)"

text \<open>A timed start or end: \<^verbatim>\<open>{dateTime, timeZone}\<close>, both non-empty, no \<^verbatim>\<open>date\<close>.\<close>

definition timed :: "event_time option \<Rightarrow> bool" where
  "timed t = (case t of
                None \<Rightarrow> False
              | Some x \<Rightarrow> truthy (dateTime x) \<and> date x = None \<and> truthy (timeZone x))"

text \<open>An all-day event, as the canonical model writes it: \<^verbatim>\<open>{date}\<close> only.\<close>

definition all_day_event :: canonical_event where
  "all_day_event =
    \<lparr> g_id = None,
      summary = Some ''Holiday'',
      description = Some ''Office closed'',
      g_start = Some \<lparr> dateTime = None, date = Some ''2024-12-25'', timeZone = None \<rparr>,
      g_end = Some \<lparr> dateTime = None, date = Some ''2024-12-26'', timeZone = None \<rparr>,
      g_location = Some ''Home'',
      g_attendees = None,
      htmlLink = None \<rparr>"

definition timed_event :: canonical_event where
  "timed_event =
    \<lparr> g_id = Some ''evt1'',
      summary = Some ''Standup'',
      description = Some ''Daily sync'',
      g_start = Some \<lparr> dateTime = Some ''2024-12-25T09:00:00'', date = None,
                       timeZone = Some ''Europe/London'' \<rparr>,
      g_end = Some \<lparr> dateTime = Some ''2024-12-25T09:15:00'', date = None,
                     timeZone = Some ''Europe/London'' \<rparr>,
      g_location = Some ''Room 1'',
      g_attendees = Some [\<lparr> email = Some ''a@example.com'', displayName = None,
                             responseStatus = None \<rparr>],
      htmlLink = None \<rparr>"

section \<open>Round trip through the Outlook shape\<close>

lemma or_default_Some: "or_default (Some s) [] = s"
  by (simp add: or_default_def js_or_def)

lemma or_default_truthy: "truthy a \<Longrightarrow> Some (or_default a d) = a"
  by (cases a) (simp_all add: or_default_def js_or_def)

lemma or_default_idem: "or_default (Some (or_default a d)) d = or_default a d"
  by (cases a) (simp_all add: or_default_def js_or_def)

lemma roundtrip_start:
  "g_start (roundtrip e) =
     Some \<lparr> dateTime = js_or (opt_chain (g_start e) dateTime) (opt_chain (g_start e) date),
            date = None,
            timeZone = Some (or_default (opt_chain (g_start e) timeZone) ''UTC'') \<rparr>"
  by (simp add: roundtrip_def transformOutlookEventToGoogle_def
      transformGoogleEventToOutlook_def opt_chain_def or_default_idem)

lemma roundtrip_end:
  "g_end (roundtrip e) =
     Some \<lparr> dateTime = js_or (opt_chain (g_end e) dateTime) (opt_chain (g_end e) date),
            date = None,
            timeZone = Some (or_default (opt_chain (g_end e) timeZone) ''UTC'') \<rparr>"
  by (simp add: roundtrip_def transformOutlookEventToGoogle_def
      transformGoogleEventToOutlook_def opt_chain_def or_default_idem)

lemma timed_fixed:
  assumes "timed t"
  shows "Some \<lparr> dateTime = js_or (opt_chain t dateTime) (opt_chain t date),
                date = None,
                timeZone = Some (or_default (opt_chain t timeZone) ''UTC'') \<rparr> = t"
proof -
  from assms obtain x where t: "t = Some x"
    and x: "truthy (dateTime x)" "date x = None" "truthy (timeZone x)"
    by (auto simp: timed_def split: option.splits)
  have "js_or (dateTime x) (date x) = dateTime x"
    using x by (simp add: js_or_def)
  moreover have "Some (or_default (timeZone x) ''UTC'') = timeZone x"
    using x by (simp add: or_default_truthy)
  ultimately show ?thesis
    using x t by (simp add: opt_chain_def)
qed

lemma roundtrip_text_fields:
  "summary (roundtrip e) = summary e"
  "description (roundtrip e) = Some (or_default (description e) [])"
  "g_location (roundtrip e) = Some (or_default (g_location e) [])"
  by (simp_all add: roundtrip_def transformOutlookEventToGoogle_def
      transformGoogleEventToOutlook_def opt_chain_def or_default_def js_or_def)

text \<open>
  C1 (as stated): the round trip returns summary, description, start, end and location
  exactly. It does not for an all-day event: its \<^verbatim>\<open>{date}\<close> start comes back as
  \<^verbatim>\<open>{dateTime, timeZone: 'UTC'}\<close>.
\<close>

theorem roundtrip_all_day_start_changes:
  "g_start (roundtrip all_day_event) \<noteq> g_start all_day_event"
  by (simp add: roundtrip_start all_day_event_def opt_chain_def js_or_def or_default_def)

text \<open>What the round trip makes of one attendee.\<close>

lemma status_of_undefined: "convertOutlookResponseStatus None = Str ''needsAction''"
  by (simp add: convertOutlookResponseStatus_def lookup_or_def literal_lookup_def
      object_prototype_keys_def)

lemma roundtrip_attendee:
  "transformOutlookAttendee (transformGoogleAttendee a) =
     \<lparr> email = email a,
       displayName = (case displayName a of
                        None \<Rightarrow> email a
                      | Some n \<Rightarrow> if n = [] then email a else Some n),
       responseStatus = Some (Str ''needsAction'') \<rparr>"
  by (cases "displayName a")
    (simp_all add: transformOutlookAttendee_def transformGoogleAttendee_def opt_chain_def
      js_or_def status_of_undefined)

lemma roundtrip_attendees:
  "g_attendees (roundtrip e) =
     Some (map (\<lambda>a. transformOutlookAttendee (transformGoogleAttendee a))
            (case g_attendees e of None \<Rightarrow> [] | Some as \<Rightarrow> as))"
  by (cases "g_attendees e")
    (simp_all add: roundtrip_def transformOutlookEventToGoogle_def
      transformGoogleEventToOutlook_def)

lemma roundtrip_links:
  "g_id (roundtrip e) = None" "htmlLink (roundtrip e) = None"
  by (simp_all add: roundtrip_def transformOutlookEventToGoogle_def
      transformGoogleEventToOutlook_def)

text \<open>
  C1 (amended): for every canonical event the round trip returns the summary exactly;
  the description and the location come back as the string they were, an absent one as
  the empty string; a start or end \<open>t\<close> comes back as
  \<^verbatim>\<open>{dateTime: t?.dateTime || t?.date, timeZone: t?.timeZone || 'UTC'}\<close>, so a timed one
  (a non-empty dateTime and timeZone, no date) comes back as it was and an all-day
  \<^verbatim>\<open>{date: d}\<close> comes back as \<^verbatim>\<open>{dateTime: d, timeZone: 'UTC'}\<close>. The id and the
  htmlLink do not come back. The
  attendees come back in their order, an absent list as the empty list, each with its
  email, with its displayName or, when that is absent or empty, its email in its place,
  and with the responseStatus \<^verbatim>\<open>'needsAction'\<close> whatever it was.
\<close>

theorem roundtrip_preserves_fields:
  "summary (roundtrip e) = summary e
   \<and> description (roundtrip e) = Some (case description e of None \<Rightarrow> [] | Some s \<Rightarrow> s)
   \<and> g_location (roundtrip e) = Some (case g_location e of None \<Rightarrow> [] | Some s \<Rightarrow> s)
   \<and> (timed (g_start e) \<longrightarrow> g_start (roundtrip e) = g_start e)
   \<and> (timed (g_end e) \<longrightarrow> g_end (roundtrip e) = g_end e)
   \<and> (g_start e = Some \<lparr> dateTime = None, date = Some d, timeZone = None \<rparr> \<longrightarrow>
        g_start (roundtrip e) = Some \<lparr> dateTime = Some d, date = None, timeZone = Some ''UTC'' \<rparr>)
   \<and> (g_end e = Some \<lparr> dateTime = None, date = Some d', timeZone = None \<rparr> \<longrightarrow>
        g_end (roundtrip e) = Some \<lparr> dateTime = Some d', date = None, timeZone = Some ''UTC'' \<rparr>)
   \<and> g_start (roundtrip e) =
        Some \<lparr> dateTime = js_or (opt_chain (g_start e) dateTime) (opt_chain (g_start e) date),
               date = None,
               timeZone = Some (or_default (opt_chain (g_start e) timeZone) ''UTC'') \<rparr>
   \<and> g_end (roundtrip e) =
        Some \<lparr> dateTime = js_or (opt_chain (g_end e) dateTime) (opt_chain (g_end e) date),
               date = None,
               timeZone = Some (or_default (opt_chain (g_end e) timeZone) ''UTC'') \<rparr>
   \<and> g_id (roundtrip e) = None
   \<and> htmlLink (roundtrip e) = None
   \<and> g_attendees (roundtrip e) =
        Some (map (\<lambda>a. \<lparr> email = email a,
                         displayName = (case displayName a of
                                          None \<Rightarrow> email a
                                        | Some n \<Rightarrow> if n = [] then email a else Some n),
                         responseStatus = Some (Str ''needsAction'') \<rparr>)
               (case g_attendees e of None \<Rightarrow> [] | Some as \<Rightarrow> as))"
proof -
  have od: "\<And>a. or_default a [] = (case a of None \<Rightarrow> [] | Some s \<Rightarrow> s)"
    by (simp add: or_default_def js_or_def split: option.splits)
  have s: "timed (g_start e) \<longrightarrow> g_start (roundtrip e) = g_start e"
    by (simp add: roundtrip_start timed_fixed)
  have n: "timed (g_end e) \<longrightarrow> g_end (roundtrip e) = g_end e"
    by (simp add: roundtrip_end timed_fixed)
  have ds: "g_start e = Some \<lparr> dateTime = None, date = Some d, timeZone = None \<rparr> \<longrightarrow>
        g_start (roundtrip e) = Some \<lparr> dateTime = Some d, date = None, timeZone = Some ''UTC'' \<rparr>"
    by (simp add: roundtrip_start opt_chain_def js_or_def or_default_def)
  have dn: "g_end e = Some \<lparr> dateTime = None, date = Some d', timeZone = None \<rparr> \<longrightarrow>
        g_end (roundtrip e) = Some \<lparr> dateTime = Some d', date = None, timeZone = Some ''UTC'' \<rparr>"
    by (simp add: roundtrip_end opt_chain_def js_or_def or_default_def)
  have at: "g_attendees (roundtrip e) =
        Some (map (\<lambda>a. \<lparr> email = email a,
                         displayName = (case displayName a of
                                          None \<Rightarrow> email a
                                        | Some n \<Rightarrow> if n = [] then email a else Some n),
                         responseStatus = Some (Str ''needsAction'') \<rparr>)
               (case g_attendees e of None \<Rightarrow> [] | Some as \<Rightarrow> as))"
    by (simp only: roundtrip_attendees roundtrip_attendee)
  show ?thesis
    using s n ds dn at
    by (simp add: roundtrip_text_fields od roundtrip_links roundtrip_start [symmetric]
        roundtrip_end [symmetric])
qed

theorem roundtrip_preserves_fields_witness:
  "timed (g_start timed_event) \<and> timed (g_end timed_event)
   \<and> summary (roundtrip timed_event) = Some ''Standup''
   \<and> description (roundtrip timed_event) = Some ''Daily sync''
   \<and> g_location (roundtrip timed_event) = Some ''Room 1''
   \<and> g_start (roundtrip timed_event) = g_start timed_event
   \<and> g_end (roundtrip timed_event) = g_end timed_event
   \<and> g_start (roundtrip all_day_event)
       = Some \<lparr> dateTime = Some ''2024-12-25'', date = None, timeZone = Some ''UTC'' \<rparr>
   \<and> g_end (roundtrip all_day_event)
       = Some \<lparr> dateTime = Some ''2024-12-26'', date = None, timeZone = Some ''UTC'' \<rparr>
   \<and> g_id timed_event = Some ''evt1'' \<and> g_id (roundtrip timed_event) = None
   \<and> g_attendees (roundtrip timed_event)
       = Some [\<lparr> email = Some ''a@example.com'', displayName = Some ''a@example.com'',
                 responseStatus = Some (Str ''needsAction'') \<rparr>]
   \<and> g_attendees all_day_event = None \<and> g_attendees (roundtrip all_day_event) = Some []"
proof -
  have t: "timed (g_start timed_event)" "timed (g_end timed_event)"
    by (simp_all add: timed_def timed_event_def)
  have a: "g_start all_day_event
             = Some \<lparr> dateTime = None, date = Some ''2024-12-25'', timeZone = None \<rparr>"
          "g_end all_day_event
             = Some \<lparr> dateTime = None, date = Some ''2024-12-26'', timeZone = None \<rparr>"
    by (simp_all add: all_day_event_def)
  have f: "summary timed_event = Some ''Standup''"
          "description timed_event = Some ''Daily sync''"
          "g_location timed_event = Some ''Room 1''"
          "g_id timed_event = Some ''evt1''"
          "g_attendees timed_event = Some [\<lparr> email = Some ''a@example.com'', displayName = None,
                             responseStatus = None \<rparr>]"
          "g_attendees all_day_event = None"
    by (simp_all add: timed_event_def all_day_event_def)
  show ?thesis
    using t a f
      roundtrip_preserves_fields [of timed_event "''2024-12-25''" "''2024-12-26''"]
      roundtrip_preserves_fields [of all_day_event "''2024-12-25''" "''2024-12-26''"]
    by simp
qed

section \<open>Errors, the console and the provider's try/catch\<close>

text \<open>
  A thrown JavaScript error, with the message the handlers read (\<^verbatim>\<open>error.message\<close>).
  The console holds what \<^verbatim>\<open>console.error\<close> wrote: a label and the error object.
\<close>

datatype js_error = Error (message: string)

datatype log_entry = ConsoleError string js_error | ConsoleErrorText string string


text \<open>Sequencing inside a try block: the first throw leaves the block.\<close>

definition bind_err :: "js_error + 'a \<Rightarrow> ('a \<Rightarrow> js_error + 'b) \<Rightarrow> js_error + 'b" where
  "bind_err r f = (case r of Inl error \<Rightarrow> Inl error | Inr v \<Rightarrow> f v)"

section \<open>Token sets and the refresh policy\<close>

text \<open>
  The OAuth token set held in the session. Google names the expiry \<^verbatim>\<open>expiry_date\<close>,
  the Outlook provider \<^verbatim>\<open>expires_at\<close>; both are milliseconds since the epoch.
\<close>

record tokens =
  access_token :: "string option"
  refresh_token :: "string option"
  expiry_date :: "int option"
  expires_at :: "int option"

text \<open>
  \<^verbatim>\<open>expiry && expiry < Date.now() + lead\<close>: an absent expiry and the number 0 are falsy.
\<close>

definition expiring :: "int option \<Rightarrow> int \<Rightarrow> int \<Rightarrow> bool" where
  "expiring expiry now lead =
    (case expiry of None \<Rightarrow> False | Some e \<Rightarrow> e \<noteq> 0 \<and> e < now + lead)"

text \<open>What one call of \<^verbatim>\<open>refreshTokenIfNeeded\<close> leaves behind.\<close>

record ('p, 'q) refresh_outcome =
  returned :: "js_error + tokens"
  provider :: "'p"
  logged :: "log_entry list"
  refresh_requests :: "'q list"

subsection \<open>Google\<close>

text \<open>
  The provider holds the token set given to its constructor and the OAuth client's
  credentials, set from it. \<^verbatim>\<open>refreshAccessToken\<close> is the client library's call; it
  works from the credentials the client holds.
\<close>

record google_provider =
  g_tokens :: tokens
  credentials :: tokens

definition new_GoogleCalendarProvider :: "tokens \<Rightarrow> google_provider" where
  "new_GoogleCalendarProvider t = \<lparr> g_tokens = t, credentials = t \<rparr>"

definition google_refreshTokenIfNeeded ::
  "(tokens \<Rightarrow> js_error + tokens) \<Rightarrow> int \<Rightarrow> google_provider \<Rightarrow> (google_provider, tokens) refresh_outcome" where
  "google_refreshTokenIfNeeded refreshAccessToken now p =
    (let held = credentials p in
     if expiring (expiry_date held) now 60000 then
       (case refreshAccessToken held of
          Inr creds \<Rightarrow>
            \<lparr> returned = Inr creds, provider = p \<lparr> credentials := creds \<rparr>,
              logged = [], refresh_requests = [held] \<rparr>
        | Inl error \<Rightarrow>
            \<lparr> returned = Inl (Error ''Failed to refresh Google OAuth token''), provider = p,
              logged = [ConsoleError ''Google Calendar: Error refreshing token:'' error],
              refresh_requests = [held] \<rparr>)
     else \<lparr> returned = Inr held, provider = p, logged = [], refresh_requests = [] \<rparr>)"

subsection \<open>Outlook\<close>

record token_request =
  scopes :: "string list"
  refreshToken :: "string option"

text \<open>
  The result of \<^verbatim>\<open>acquireTokenByRefreshToken\<close>; \<open>expiresOn\<close> is the \<^verbatim>\<open>Date\<close>'s
  time value, \<open>None\<close> when the library gives \<^verbatim>\<open>null\<close>.
\<close>

record authentication_result =
  accessToken :: "string option"
  new_refreshToken :: "string option"
  expiresOn :: "int option"

text \<open>
  The provider holds its token set and the access token its Graph client answers with
  (the client is rebuilt after a refresh).
\<close>

record outlook_provider =
  o_tokens :: tokens
  client_access_token :: "string option"

definition new_OutlookCalendarProvider :: "tokens \<Rightarrow> outlook_provider" where
  "new_OutlookCalendarProvider t = \<lparr> o_tokens = t, client_access_token = access_token t \<rparr>"

text \<open>
  \<open>now\<close>, \<open>now1\<close> and \<open>now2\<close> are the three readings of \<^verbatim>\<open>Date.now()\<close>, in the
  order the function takes them. A \<^verbatim>\<open>null\<close> result, or one with no \<open>expiresOn\<close>,
  makes the read of the response throw inside the try block.
\<close>

definition outlook_refreshTokenIfNeeded ::
  "(token_request \<Rightarrow> js_error + authentication_result option) \<Rightarrow> int \<Rightarrow> int \<Rightarrow> int \<Rightarrow>
     outlook_provider \<Rightarrow> (outlook_provider, token_request) refresh_outcome" where
  "outlook_refreshTokenIfNeeded acquireTokenByRefreshToken now now1 now2 p =
    (let held = o_tokens p in
     if expiring (expires_at held) now 300000 then
       (let tokenRequest = \<lparr> scopes = [''Calendars.ReadWrite'', ''User.Read''],
                               refreshToken = refresh_token held \<rparr>;
            updated =
              bind_err (acquireTokenByRefreshToken tokenRequest) (\<lambda>response.
                case response of
                  None \<Rightarrow> Inl (Error ''Cannot read properties of null (reading 'accessToken')'')
                | Some r \<Rightarrow>
                    (case expiresOn r of
                       None \<Rightarrow> Inl (Error ''Cannot read properties of null (reading 'getTime')'')
                     | Some t \<Rightarrow>
                         Inr \<lparr> access_token = accessToken r,
                               refresh_token = js_or (new_refreshToken r) (refresh_token held),
                               expiry_date = None,
                               expires_at = Some (now1 + (t - now2)) \<rparr>))
        in case updated of
             Inr new_tokens \<Rightarrow>
               \<lparr> returned = Inr new_tokens,
                 provider = \<lparr> o_tokens = new_tokens, client_access_token = access_token new_tokens \<rparr>,
                 logged = [], refresh_requests = [tokenRequest] \<rparr>
           | Inl error \<Rightarrow>
               \<lparr> returned = Inl (Error ''Failed to refresh Outlook OAuth token''), provider = p,
                 logged = [ConsoleError ''Outlook Calendar: Error refreshing token:'' error],
                 refresh_requests = [tokenRequest] \<rparr>)
     else \<lparr> returned = Inr held, provider = p, logged = [], refresh_requests = [] \<rparr>)"

text \<open>A Google token set whose stored expiry is the number 0.\<close>

definition zero_expiry_tokens :: tokens where
  "zero_expiry_tokens =
    \<lparr> access_token = Some ''ya29.a'', refresh_token = Some ''1//r'',
      expiry_date = Some 0, expires_at = Some 0 \<rparr>"

definition stale_tokens :: tokens where
  "stale_tokens =
    \<lparr> access_token = Some ''ya29.a'', refresh_token = Some ''1//r'',
      expiry_date = Some 1700000030000, expires_at = Some 1700000030000 \<rparr>"

definition fresh_tokens :: tokens where
  "fresh_tokens =
    \<lparr> access_token = Some ''ya29.a'', refresh_token = Some ''1//r'',
      expiry_date = Some 1700003600000, expires_at = Some 1700003600000 \<rparr>"

subsection \<open>When a refresh request goes out\<close>

lemma google_refresh_requests:
  "refresh_requests (google_refreshTokenIfNeeded api now p) =
     (if expiring (expiry_date (credentials p)) now 60000 then [credentials p] else [])"
  by (simp add: google_refreshTokenIfNeeded_def Let_def split: sum.splits)

lemma outlook_refresh_requests:
  "refresh_requests (outlook_refreshTokenIfNeeded api now now1 now2 p) =
     (if expiring (expires_at (o_tokens p)) now 300000
      then [\<lparr> scopes = [''Calendars.ReadWrite'', ''User.Read''],
              refreshToken = refresh_token (o_tokens p) \<rparr>]
      else [])"
  by (simp add: outlook_refreshTokenIfNeeded_def Let_def split: sum.splits)

lemma google_refresh_not_due:
  "\<not> expiring (expiry_date (credentials p)) now 60000 \<Longrightarrow>
     google_refreshTokenIfNeeded api now p =
       \<lparr> returned = Inr (credentials p), provider = p, logged = [], refresh_requests = [] \<rparr>"
  by (simp add: google_refreshTokenIfNeeded_def Let_def)

lemma outlook_refresh_not_due:
  "\<not> expiring (expires_at (o_tokens p)) now 300000 \<Longrightarrow>
     outlook_refreshTokenIfNeeded api now now1 now2 p =
       \<lparr> returned = Inr (o_tokens p), provider = p, logged = [], refresh_requests = [] \<rparr>"
  by (simp add: outlook_refreshTokenIfNeeded_def Let_def)

lemma expiring_iff:
  "expiring expiry now lead \<longleftrightarrow> (\<exists>e. expiry = Some e \<and> e \<noteq> 0 \<and> e < now + lead)"
  by (cases expiry) (simp_all add: expiring_def)

text \<open>
  C6 (as stated): a refresh happens exactly when the stored expiry is within the lead
  window of the current time. A stored expiry of 0 is earlier than any current time plus
  the lead, and no refresh request goes out: the guard \<^verbatim>\<open>expiry && ...\<close> reads 0 as
  "no expiry".
\<close>

theorem zero_expiry_is_not_refreshed:
  "expiry_date zero_expiry_tokens = Some 0 \<and> (0::int) < 1700000000000 + 60000
   \<and> refresh_requests
        (google_refreshTokenIfNeeded (\<lambda>t. Inr fresh_tokens) 1700000000000
           (new_GoogleCalendarProvider zero_expiry_tokens)) = []
   \<and> expires_at zero_expiry_tokens = Some 0 \<and> (0::int) < 1700000000000 + 300000
   \<and> refresh_requests
        (outlook_refreshTokenIfNeeded (\<lambda>r. Inl (Error ''unreachable'')) 1700000000000
           1700000000001 1700000000002 (new_OutlookCalendarProvider zero_expiry_tokens)) = []"
  by (simp add: google_refresh_requests outlook_refresh_requests expiring_def
      zero_expiry_tokens_def new_GoogleCalendarProvider_def new_OutlookCalendarProvider_def)

text \<open>
  C6 (amended): \<^verbatim>\<open>refreshTokenIfNeeded\<close> issues a refresh request exactly when a stored
  expiry is present, is not 0 and is earlier than the current time plus the provider's
  lead (60000 ms for Google, 300000 ms for Outlook); otherwise it returns the held token
  set, leaves the provider as it was, logs nothing and issues no request.
\<close>

theorem refresh_exactly_when_expiring:
  "(refresh_requests (google_refreshTokenIfNeeded gapi now g) \<noteq> []
      \<longleftrightarrow> (\<exists>e. expiry_date (credentials g) = Some e \<and> e \<noteq> 0 \<and> e < now + 60000))
   \<and> (refresh_requests (google_refreshTokenIfNeeded gapi now g) = [] \<longrightarrow>
        google_refreshTokenIfNeeded gapi now g =
          \<lparr> returned = Inr (credentials g), provider = g, logged = [], refresh_requests = [] \<rparr>)
   \<and> (refresh_requests (outlook_refreshTokenIfNeeded oapi now now1 now2 p) \<noteq> []
      \<longleftrightarrow> (\<exists>e. expires_at (o_tokens p) = Some e \<and> e \<noteq> 0 \<and> e < now + 300000))
   \<and> (refresh_requests (outlook_refreshTokenIfNeeded oapi now now1 now2 p) = [] \<longrightarrow>
        outlook_refreshTokenIfNeeded oapi now now1 now2 p =
          \<lparr> returned = Inr (o_tokens p), provider = p, logged = [], refresh_requests = [] \<rparr>)"
proof -
  have g1: "refresh_requests (google_refreshTokenIfNeeded gapi now g) \<noteq> []
      \<longleftrightarrow> expiring (expiry_date (credentials g)) now 60000"
    by (simp add: google_refresh_requests)
  have o1: "refresh_requests (outlook_refreshTokenIfNeeded oapi now now1 now2 p) \<noteq> []
      \<longleftrightarrow> expiring (expires_at (o_tokens p)) now 300000"
    by (simp add: outlook_refresh_requests)
  have g2: "refresh_requests (google_refreshTokenIfNeeded gapi now g) = [] \<longrightarrow>
        google_refreshTokenIfNeeded gapi now g =
          \<lparr> returned = Inr (credentials g), provider = g, logged = [], refresh_requests = [] \<rparr>"
    using g1 google_refresh_not_due [of g now gapi] by blast
  have o2: "refresh_requests (outlook_refreshTokenIfNeeded oapi now now1 now2 p) = [] \<longrightarrow>
        outlook_refreshTokenIfNeeded oapi now now1 now2 p =
          \<lparr> returned = Inr (o_tokens p), provider = p, logged = [], refresh_requests = [] \<rparr>"
    using o1 outlook_refresh_not_due [of p now oapi now1 now2] by blast
  show ?thesis
    using g1 g2 o1 o2 unfolding expiring_iff by blast
qed

theorem refresh_exactly_when_expiring_witness:
  "refresh_requests
      (google_refreshTokenIfNeeded (\<lambda>t. Inr fresh_tokens) 1700000000000
         (new_GoogleCalendarProvider stale_tokens)) \<noteq> []
   \<and> refresh_requests
      (outlook_refreshTokenIfNeeded (\<lambda>r. Inl (Error ''invalid_grant'')) 1700000000000
         1700000000001 1700000000002 (new_OutlookCalendarProvider stale_tokens)) \<noteq> []
   \<and> google_refreshTokenIfNeeded (\<lambda>t. Inr stale_tokens) 1700000000000
         (new_GoogleCalendarProvider fresh_tokens)
       = \<lparr> returned = Inr fresh_tokens, provider = new_GoogleCalendarProvider fresh_tokens,
           logged = [], refresh_requests = [] \<rparr>
   \<and> outlook_refreshTokenIfNeeded (\<lambda>r. Inl (Error ''invalid_grant'')) 1700000000000
         1700000000001 1700000000002 (new_OutlookCalendarProvider fresh_tokens)
       = \<lparr> returned = Inr fresh_tokens, provider = new_OutlookCalendarProvider fresh_tokens,
           logged = [], refresh_requests = [] \<rparr>"
proof -
  have s: "\<exists>e. expiry_date (credentials (new_GoogleCalendarProvider stale_tokens)) = Some e
             \<and> e \<noteq> 0 \<and> e < 1700000000000 + 60000"
          "\<exists>e. expires_at (o_tokens (new_OutlookCalendarProvider stale_tokens)) = Some e
             \<and> e \<noteq> 0 \<and> e < 1700000000000 + 300000"
    by (simp_all add: new_GoogleCalendarProvider_def new_OutlookCalendarProvider_def
        stale_tokens_def)
  have f: "\<not> (\<exists>e. expiry_date (credentials (new_GoogleCalendarProvider fresh_tokens)) = Some e
             \<and> e \<noteq> 0 \<and> e < 1700000000000 + 60000)"
          "\<not> (\<exists>e. expires_at (o_tokens (new_OutlookCalendarProvider fresh_tokens)) = Some e
             \<and> e \<noteq> 0 \<and> e < 1700000000000 + 300000)"
    by (simp_all add: new_GoogleCalendarProvider_def new_OutlookCalendarProvider_def
        fresh_tokens_def)
  have c: "credentials (new_GoogleCalendarProvider fresh_tokens) = fresh_tokens"
          "o_tokens (new_OutlookCalendarProvider fresh_tokens) = fresh_tokens"
    by (simp_all add: new_GoogleCalendarProvider_def new_OutlookCalendarProvider_def)
  show ?thesis
    using s f c
      refresh_exactly_when_expiring
        [of "\<lambda>t. Inr fresh_tokens" 1700000000000 "new_GoogleCalendarProvider stale_tokens"
            "\<lambda>r. Inl (Error ''invalid_grant'')" 1700000000001 1700000000002
            "new_OutlookCalendarProvider stale_tokens"]
      refresh_exactly_when_expiring
        [of "\<lambda>t. Inr stale_tokens" 1700000000000 "new_GoogleCalendarProvider fresh_tokens"
            "\<lambda>r. Inl (Error ''invalid_grant'')" 1700000000001 1700000000002
            "new_OutlookCalendarProvider fresh_tokens"]
    by metis
qed

text \<open>A text between single quotes.\<close>

definition quoted :: "string \<Rightarrow> string" where
  "quoted s = [CHR 0x27] @ s @ [CHR 0x27]"

text \<open>A number written in decimal, as a template literal or a message writes it.\<close>

function decimal :: "nat \<Rightarrow> string" where
  "decimal n = (if n < 10 then [''0123456789'' ! n] else decimal (n div 10) @ [''0123456789'' ! (n mod 10)])"
  by pat_completeness auto
termination
  by (relation "measure id") auto

declare decimal.simps [simp del]

section \<open>The durable store\<close>

text \<open>
  The two tables that the user functions touch, as the schema has them once the
  migration \<^verbatim>\<open>001_add_outlook_support.sql\<close> has run, each a list of rows, and their
  \<^verbatim>\<open>SERIAL\<close> sequences (the next value each will give). \<open>None\<close> in a column is
  \<^verbatim>\<open>NULL\<close>. Timestamps are the transaction's \<^verbatim>\<open>CURRENT_TIMESTAMP\<close>.

  A text value is held as the server holds it, in UTF-8, a byte a character of the
  string. A JavaScript \<^verbatim>\<open>undefined\<close> or \<^verbatim>\<open>null\<close> parameter is sent as NULL.
\<close>

record user_row =
  u_id :: int
  google_id :: "string option"
  outlook_id :: "string option"
  u_provider :: string
  u_email :: "string option"
  u_name :: "string option"
  u_created_at :: int
  u_updated_at :: int

record settings_row =
  s_id :: int
  user_id :: int
  openrouter_api_key_encrypted :: "string option"
  openrouter_model :: "string option"
  encryption_iv :: "string option"
  s_created_at :: int
  s_updated_at :: int

record database =
  users :: "user_row list"
  user_settings :: "settings_row list"
  users_id_seq :: int
  user_settings_id_seq :: int

subsection \<open>What the server refuses\<close>

definition double_quoted :: "string \<Rightarrow> string" where
  "double_quoted s = [CHR 0x22] @ s @ [CHR 0x22]"

definition invalid_byte_sequence :: js_error where
  "invalid_byte_sequence =
    Error (''invalid byte sequence for encoding '' @ double_quoted ''UTF8'' @ '': 0x00'')"

definition value_too_long :: "nat \<Rightarrow> js_error" where
  "value_too_long n = Error (''value too long for type character varying('' @ decimal n @ '')'')"

definition not_null_violation :: "string \<Rightarrow> string \<Rightarrow> js_error" where
  "not_null_violation column relation =
    Error (''null value in column '' @ double_quoted column @ '' of relation ''
           @ double_quoted relation @ '' violates not-null constraint'')"

definition check_violation :: "string \<Rightarrow> string \<Rightarrow> js_error" where
  "check_violation relation constraint =
    Error (''new row for relation '' @ double_quoted relation
           @ '' violates check constraint '' @ double_quoted constraint)"

definition unique_violation :: "string \<Rightarrow> js_error" where
  "unique_violation constraint =
    Error (''duplicate key value violates unique constraint '' @ double_quoted constraint)"

definition foreign_key_violation :: "string \<Rightarrow> string \<Rightarrow> js_error" where
  "foreign_key_violation relation constraint =
    Error (''insert or update on table '' @ double_quoted relation
           @ '' violates foreign key constraint '' @ double_quoted constraint)"

text \<open>
  The text parameters of a statement are read when it is bound, before any of it runs:
  a parameter that holds the character U+0000 is refused.
\<close>

definition bind_text :: "string option list \<Rightarrow> js_error + unit" where
  "bind_text parameters =
    (if list_ex (\<lambda>p. case p of None \<Rightarrow> False | Some s \<Rightarrow> CHR 0x00 \<in> set s) parameters
     then Inl invalid_byte_sequence else Inr ())"

text \<open>
  The number of characters of a text in UTF-8: every byte that is not a continuation
  byte (\<^verbatim>\<open>10xxxxxx\<close>) begins one.
\<close>

definition char_length :: "string \<Rightarrow> nat" where
  "char_length s =
    length (filter (\<lambda>c. \<not> (0x80 \<le> (of_char c :: nat) \<and> (of_char c :: nat) < 0xC0)) s)"

text \<open>
  A parameter assigned to a \<^verbatim>\<open>VARCHAR(n)\<close> column, which happens before the statement
  touches a row or a sequence: \<^verbatim>\<open>NULL\<close> stays, a value of at most \<open>n\<close> characters
  stays, a longer one is cut to \<open>n\<close> characters when all it loses are spaces, and is
  refused otherwise.
\<close>

definition varchar :: "nat \<Rightarrow> string option \<Rightarrow> js_error + string option" where
  "varchar n v =
    (case v of
       None \<Rightarrow> Inr None
     | Some s \<Rightarrow>
         if char_length s \<le> n then Inr (Some s)
         else if list_all (\<lambda>c. c = CHR 0x20) (drop (length s - (char_length s - n)) s)
         then Inr (Some (take (length s - (char_length s - n)) s))
         else Inl (value_too_long n))"

text \<open>A text that a \<^verbatim>\<open>VARCHAR(n)\<close> column takes as it is.\<close>

definition fits :: "nat \<Rightarrow> string \<Rightarrow> bool" where
  "fits n s = (CHR 0x00 \<notin> set s \<and> char_length s \<le> n)"

subsection \<open>The statements\<close>

text \<open>\<^verbatim>\<open>SELECT * FROM users WHERE google_id = $1\<close>: NULL equals nothing.\<close>

definition select_users_by_google_id :: "database \<Rightarrow> string option \<Rightarrow> js_error + user_row list" where
  "select_users_by_google_id db googleId =
    (case bind_text [googleId] of
       Inl error \<Rightarrow> Inl error
     | Inr u \<Rightarrow> Inr (filter (\<lambda>r. googleId \<noteq> None \<and> google_id r = googleId) (users db)))"

text \<open>
  \<^verbatim>\<open>UPDATE users SET email = $1, name = $2, updated_at = CURRENT_TIMESTAMP
  WHERE google_id = $3 RETURNING *\<close>
\<close>

definition update_users_by_google_id ::
  "database \<Rightarrow> int \<Rightarrow> string option \<Rightarrow> string option \<Rightarrow> string option \<Rightarrow>
     (js_error + user_row list) \<times> database" where
  "update_users_by_google_id db now email' name' googleId =
    (case bind_err (bind_text [email', name', googleId]) (\<lambda>u.
            bind_err (varchar 255 email') (\<lambda>e.
              bind_err (varchar 255 name') (\<lambda>n. Inr (e, n)))) of
       Inl error \<Rightarrow> (Inl error, db)
     | Inr (e, n) \<Rightarrow>
         (let set_row = (\<lambda>r. r \<lparr> u_email := e, u_name := n, u_updated_at := now \<rparr>);
              hit = (\<lambda>r. googleId \<noteq> None \<and> google_id r = googleId)
          in if filter hit (users db) \<noteq> [] \<and> e = None
             then (Inl (not_null_violation ''email'' ''users''), db)
             else (Inr (map set_row (filter hit (users db))),
                   db \<lparr> users := map (\<lambda>r. if hit r then set_row r else r) (users db) \<rparr>)))"

text \<open>
  \<^verbatim>\<open>INSERT INTO users (google_id, email, name) VALUES ($1, $2, $3) RETURNING *\<close>
  The id comes from the sequence, which has moved on when a constraint refuses the row;
  \<^verbatim>\<open>provider\<close> takes its default, \<^verbatim>\<open>'google'\<close>, with which the check
  \<^verbatim>\<open>provider_id_check\<close> wants a \<^verbatim>\<open>google_id\<close>.
\<close>

definition new_user ::
  "database \<Rightarrow> int \<Rightarrow> string option \<Rightarrow> string option \<Rightarrow> string option \<Rightarrow> user_row" where
  "new_user db now googleId email' name' =
    \<lparr> u_id = users_id_seq db, google_id = googleId, outlook_id = None,
      u_provider = ''google'', u_email = email', u_name = name',
      u_created_at = now, u_updated_at = now \<rparr>"

definition insert_user ::
  "database \<Rightarrow> int \<Rightarrow> string option \<Rightarrow> string option \<Rightarrow> string option \<Rightarrow>
     (js_error + user_row list) \<times> database" where
  "insert_user db now googleId email' name' =
    (case bind_err (bind_text [googleId, email', name']) (\<lambda>u.
            bind_err (varchar 255 googleId) (\<lambda>g.
              bind_err (varchar 255 email') (\<lambda>e.
                bind_err (varchar 255 name') (\<lambda>n. Inr (new_user db now g e n))))) of
       Inl error \<Rightarrow> (Inl error, db)
     | Inr row \<Rightarrow>
         (let db1 = db \<lparr> users_id_seq := users_id_seq db + 1 \<rparr>
          in if u_email row = None
             then (Inl (not_null_violation ''email'' ''users''), db1)
             else if google_id row = None
             then (Inl (check_violation ''users'' ''provider_id_check''), db1)
             else if u_id row \<in> set (map u_id (users db))
             then (Inl (unique_violation ''users_pkey''), db1)
             else if google_id row \<in> set (map google_id (users db))
             then (Inl (unique_violation ''users_google_id_key''), db1)
             else (Inr [row], db1 \<lparr> users := users db @ [row] \<rparr>)))"

text \<open>\<^verbatim>\<open>INSERT INTO user_settings (user_id) VALUES ($1)\<close>: every other column is NULL.\<close>

definition new_settings :: "database \<Rightarrow> int \<Rightarrow> int \<Rightarrow> settings_row" where
  "new_settings db now userId =
    \<lparr> s_id = user_settings_id_seq db, user_id = userId, openrouter_api_key_encrypted = None,
      openrouter_model = None, encryption_iv = None,
      s_created_at = now, s_updated_at = now \<rparr>"

definition insert_user_settings ::
  "database \<Rightarrow> int \<Rightarrow> int \<Rightarrow> (js_error + unit) \<times> database" where
  "insert_user_settings db now userId =
    (let row = new_settings db now userId;
         db1 = db \<lparr> user_settings_id_seq := user_settings_id_seq db + 1 \<rparr>
     in if s_id row \<in> set (map s_id (user_settings db))
        then (Inl (unique_violation ''user_settings_pkey''), db1)
        else if userId \<in> set (map user_id (user_settings db))
        then (Inl (unique_violation ''user_settings_user_id_key''), db1)
        else if userId \<notin> set (map u_id (users db))
        then (Inl (foreign_key_violation ''user_settings'' ''user_settings_user_id_fkey''), db1)
        else (Inr (), db1 \<lparr> user_settings := user_settings db @ [row] \<rparr>))"

text \<open>\<^verbatim>\<open>ROLLBACK\<close> puts the tables back; a sequence is never rolled back.\<close>

definition rollback :: "database \<Rightarrow> database \<Rightarrow> database" where
  "rollback before after = after \<lparr> users := users before, user_settings := user_settings before \<rparr>"

text \<open>\<^verbatim>\<open>result.rows[0]\<close>\<close>

definition first_row :: "'a list \<Rightarrow> 'a option" where
  "first_row rows = (case rows of [] \<Rightarrow> None | r # _ \<Rightarrow> Some r)"

subsection \<open>findOrCreateUser\<close>

text \<open>
  Between \<^verbatim>\<open>BEGIN\<close> and \<^verbatim>\<open>COMMIT\<close>: what a statement throws is caught, the
  transaction rolled back and the error thrown again.
\<close>

definition findOrCreateUser ::
  "database \<Rightarrow> int \<Rightarrow> string option \<Rightarrow> string option \<Rightarrow> string option \<Rightarrow>
     (js_error + user_row option) \<times> database" where
  "findOrCreateUser db now googleId email' name' =
    (let (result, db') =
           (case select_users_by_google_id db googleId of
              Inl error \<Rightarrow> (Inl error, db)
            | Inr found \<Rightarrow>
                if length found > 0
                then update_users_by_google_id db now email' name' googleId
                else (case insert_user db now googleId email' name' of
                        (Inl error, db1) \<Rightarrow> (Inl error, db1)
                      | (Inr rows, db1) \<Rightarrow>
                          (case rows of
                             [] \<Rightarrow> (Inl (Error ''Cannot read properties of undefined (reading 'id')''), db1)
                           | r # _ \<Rightarrow>
                               (case insert_user_settings db1 now (u_id r) of
                                  (Inl error, db2) \<Rightarrow> (Inl error, db2)
                                | (Inr _, db2) \<Rightarrow> (Inr rows, db2)))))
     in case result of
          Inl error \<Rightarrow> (Inl error, rollback db db')
        | Inr rows \<Rightarrow> (Inr (first_row rows), db'))"

subsection \<open>The settings functions\<close>

text \<open>The \<^verbatim>\<open>query\<close> helper logs a failed statement and throws the same error again.\<close>

definition query :: "(js_error + 'a) \<times> database \<Rightarrow> (js_error + 'a) \<times> database \<times> log_entry list" where
  "query r =
    (case r of
       (Inl error, db) \<Rightarrow> (Inl error, db, [ConsoleError ''Database query error:'' error])
     | (Inr v, db) \<Rightarrow> (Inr v, db, []))"

definition getUserSettings :: "database \<Rightarrow> int \<Rightarrow> settings_row option" where
  "getUserSettings db userId = first_row (filter (\<lambda>s. user_id s = userId) (user_settings db))"


definition deleteUserApiKey ::
  "database \<Rightarrow> int \<Rightarrow> int \<Rightarrow> (js_error + settings_row option) \<times> database \<times> log_entry list" where
  "deleteUserApiKey db now userId =
    query
      (let set_row = (\<lambda>s. s \<lparr> openrouter_api_key_encrypted := None,
                              encryption_iv := None,
                              s_updated_at := now \<rparr>);
           hit = (\<lambda>s. user_id s = userId)
       in (Inr (first_row (map set_row (filter hit (user_settings db)))),
           db \<lparr> user_settings := map (\<lambda>s. if hit s then set_row s else s) (user_settings db) \<rparr>))"

subsection \<open>Well-formed stores\<close>

text \<open>
  What the schema's keys and sequences keep true: ids are unique and behind their
  sequence, a Google id and a settings row's user are unique, and every settings row
  belongs to a user.
\<close>

definition google_ids :: "database \<Rightarrow> string list" where
  "google_ids db = concat (map (\<lambda>r. case google_id r of None \<Rightarrow> [] | Some g \<Rightarrow> [g]) (users db))"

definition db_wf :: "database \<Rightarrow> bool" where
  "db_wf db =
    (distinct (map u_id (users db))
     \<and> list_all (\<lambda>r. u_id r < users_id_seq db) (users db)
     \<and> distinct (google_ids db)
     \<and> distinct (map s_id (user_settings db))
     \<and> list_all (\<lambda>s. s_id s < user_settings_id_seq db) (user_settings db)
     \<and> distinct (map user_id (user_settings db))
     \<and> list_all (\<lambda>s. user_id s \<in> set (map u_id (users db))) (user_settings db))"

definition empty_db :: database where
  "empty_db = \<lparr> users = [], user_settings = [], users_id_seq = 1, user_settings_id_seq = 1 \<rparr>"



section \<open>Finding or creating a user\<close>

lemma rollback_tables:
  "users (rollback a b) = users a" "user_settings (rollback a b) = user_settings a"
  by (simp_all add: rollback_def)

lemma varchar_fits: "fits n s \<Longrightarrow> varchar n (Some s) = Inr (Some s)"
  by (simp add: fits_def varchar_def)

lemma varchar_fits_option:
  "(case v of None \<Rightarrow> True | Some s \<Rightarrow> fits n s) \<Longrightarrow> varchar n v = Inr v"
  by (cases v) (simp_all add: fits_def varchar_def)

lemma bind_text_fits:
  assumes "fits n g" "fits n e" "case v of None \<Rightarrow> True | Some s \<Rightarrow> fits n s"
  shows "bind_text [Some g] = Inr ()" "bind_text [Some g, Some e, v] = Inr ()"
    "bind_text [Some e, v, Some g] = Inr ()"
  using assms by (cases v; simp add: bind_text_def fits_def)+

lemma fresh_user_id:
  assumes "db_wf db"
  shows "users_id_seq db \<notin> set (map u_id (users db))"
    and "users_id_seq db \<notin> set (map user_id (user_settings db))"
    and "user_settings_id_seq db \<notin> set (map s_id (user_settings db))"
proof -
  show a: "users_id_seq db \<notin> set (map u_id (users db))"
    using assms by (auto simp: db_wf_def list_all_iff)
  have "set (map user_id (user_settings db)) \<subseteq> set (map u_id (users db))"
    using assms by (auto simp: db_wf_def list_all_iff)
  with a show "users_id_seq db \<notin> set (map user_id (user_settings db))"
    by blast
  show "user_settings_id_seq db \<notin> set (map s_id (user_settings db))"
    using assms by (auto simp: db_wf_def list_all_iff)
qed

lemma no_row_iff:
  "filter (\<lambda>r. google_id r = Some g) (users db) = [] \<longleftrightarrow> Some g \<notin> set (map google_id (users db))"
  by (force simp: filter_empty_conv)

lemma insert_user_ok:
  assumes "db_wf db" "filter (\<lambda>r. google_id r = Some g) (users db) = []"
    "fits 255 g" "fits 255 e" "case n of None \<Rightarrow> True | Some s \<Rightarrow> fits 255 s"
  shows "insert_user db now (Some g) (Some e) n =
     (Inr [new_user db now (Some g) (Some e) n],
      db \<lparr> users_id_seq := users_id_seq db + 1,
           users := users db @ [new_user db now (Some g) (Some e) n] \<rparr>)"
proof -
  have "users_id_seq db \<notin> set (map u_id (users db))"
    using assms(1) by (auto simp: db_wf_def list_all_iff)
  moreover have "Some g \<notin> set (map google_id (users db))"
    using assms(2) unfolding no_row_iff .
  ultimately show ?thesis
    by (simp add: insert_user_def Let_def bind_err_def bind_text_fits(2) [OF assms(3,4,5)]
        varchar_fits [OF assms(3)] varchar_fits [OF assms(4)] varchar_fits_option [OF assms(5)]
        new_user_def)
qed

lemma insert_user_settings_ok:
  assumes "user_settings_id_seq d \<notin> set (map s_id (user_settings d))"
    "uid \<notin> set (map user_id (user_settings d))" "uid \<in> set (map u_id (users d))"
  shows "insert_user_settings d now uid =
     (Inr (),
      d \<lparr> user_settings_id_seq := user_settings_id_seq d + 1,
          user_settings := user_settings d @ [new_settings d now uid] \<rparr>)"
  using assms by (simp add: insert_user_settings_def Let_def new_settings_def)

lemma select_users_fits:
  assumes "fits n g"
  shows "select_users_by_google_id db (Some g) = Inr (filter (\<lambda>r. google_id r = Some g) (users db))"
  using assms by (simp add: select_users_by_google_id_def bind_text_def fits_def)

lemma findOrCreateUser_fresh:
  assumes "db_wf db" "filter (\<lambda>r. google_id r = Some g) (users db) = []"
    "fits 255 g" "fits 255 e" "case n of None \<Rightarrow> True | Some s \<Rightarrow> fits 255 s"
  shows "findOrCreateUser db now (Some g) (Some e) n =
     (Inr (Some (new_user db now (Some g) (Some e) n)),
      db \<lparr> users_id_seq := users_id_seq db + 1,
           users := users db @ [new_user db now (Some g) (Some e) n],
           user_settings_id_seq := user_settings_id_seq db + 1,
           user_settings := user_settings db @ [new_settings db now (users_id_seq db)] \<rparr>)"
proof -
  let ?u = "new_user db now (Some g) (Some e) n"
  let ?d = "db \<lparr> users_id_seq := users_id_seq db + 1, users := users db @ [?u] \<rparr>"
  have i: "u_id ?u = users_id_seq db"
    by (simp add: new_user_def)
  have fresh: "users_id_seq db \<notin> set (map u_id (users db))"
    using assms(1) by (auto simp: db_wf_def list_all_iff)
  have a: "user_settings_id_seq ?d \<notin> set (map s_id (user_settings ?d))"
    using assms(1) by (auto simp: db_wf_def list_all_iff)
  have "set (map user_id (user_settings db)) \<subseteq> set (map u_id (users db))"
    using assms(1) by (auto simp: db_wf_def list_all_iff)
  with fresh have b: "users_id_seq db \<notin> set (map user_id (user_settings ?d))"
    by auto
  have c: "users_id_seq db \<in> set (map u_id (users ?d))"
    by (simp add: i)
  have n: "new_settings ?d now (users_id_seq db) = new_settings db now (users_id_seq db)"
    by (simp add: new_settings_def)
  have s: "insert_user_settings ?d now (users_id_seq db) =
     (Inr (),
      ?d \<lparr> user_settings_id_seq := user_settings_id_seq db + 1,
           user_settings := user_settings db @ [new_settings db now (users_id_seq db)] \<rparr>)"
    using insert_user_settings_ok [OF a b c, of now] by (simp add: n)
  show ?thesis
    unfolding findOrCreateUser_def
    by (simp add: select_users_fits [OF assms(3)] assms(2) insert_user_ok [OF assms] s i
        first_row_def Let_def)
qed

lemma findOrCreateUser_existing:
  assumes "filter (\<lambda>r. google_id r = Some g) (users db) \<noteq> []"
    "fits 255 g" "fits 255 e" "case n of None \<Rightarrow> True | Some s \<Rightarrow> fits 255 s"
  shows "findOrCreateUser db now (Some g) (Some e) n =
     (Inr (first_row (map (\<lambda>r. r \<lparr> u_email := Some e, u_name := n, u_updated_at := now \<rparr>)
                        (filter (\<lambda>r. google_id r = Some g) (users db)))),
      db \<lparr> users := map (\<lambda>r. if google_id r = Some g
                              then r \<lparr> u_email := Some e, u_name := n, u_updated_at := now \<rparr>
                              else r) (users db) \<rparr>)"
  using assms(1)
  by (simp add: findOrCreateUser_def update_users_by_google_id_def Let_def bind_err_def
      select_users_fits [OF assms(2)] bind_text_fits(3) [OF assms(2,3,4)]
      varchar_fits [OF assms(3)] varchar_fits_option [OF assms(4)])

lemma update_only_new_row:
  assumes "filter (\<lambda>r. google_id r = Some g) (users db) = []" "google_id u = Some g"
  shows "map (\<lambda>r. if google_id r = Some g then f r else r) (users db @ [u]) = users db @ [f u]"
proof -
  have "\<forall>r \<in> set (users db). google_id r \<noteq> Some g"
    using assms(1) by (simp add: filter_empty_conv)
  then have "map (\<lambda>r. if google_id r = Some g then f r else r) (users db) = users db"
    by (simp add: map_idI)
  then show ?thesis using assms(2) by simp
qed

lemma google_ids_set: "set (google_ids db) = {g. Some g \<in> set (map google_id (users db))}"
  by (force simp: google_ids_def split: option.splits)

lemma db_wf_fields:
  assumes "users a = users b" "user_settings a = user_settings b"
    "users_id_seq a = users_id_seq b" "user_settings_id_seq a = user_settings_id_seq b"
  shows "db_wf a = db_wf b"
  using assms by (simp add: db_wf_def google_ids_def)

lemma db_wf_after_create:
  assumes "db_wf db" "filter (\<lambda>r. google_id r = Some g) (users db) = []" "google_id u = Some g"
    "u_id u = users_id_seq db" "s_id s = user_settings_id_seq db" "user_id s = users_id_seq db"
  shows "db_wf (db \<lparr> users_id_seq := users_id_seq db + 1,
           users := users db @ [u],
           user_settings_id_seq := user_settings_id_seq db + 1,
           user_settings := user_settings db @ [s] \<rparr>)"
proof -
  have g: "g \<notin> set (google_ids db)"
    using assms(2) by (simp add: google_ids_set no_row_iff)
  have ids: "google_ids (db \<lparr> users_id_seq := users_id_seq db + 1,
           users := users db @ [u],
           user_settings_id_seq := user_settings_id_seq db + 1,
           user_settings := user_settings db @ [s] \<rparr>) = google_ids db @ [g]"
    using assms(3) by (simp add: google_ids_def)
  have fresh: "users_id_seq db \<notin> set (map u_id (users db))"
    "user_settings_id_seq db \<notin> set (map s_id (user_settings db))"
    using assms(1) by (auto simp: db_wf_def list_all_iff)
  have "set (map user_id (user_settings db)) \<subseteq> set (map u_id (users db))"
    using assms(1) by (auto simp: db_wf_def list_all_iff)
  with fresh(1) have fresh3: "users_id_seq db \<notin> set (map user_id (user_settings db))"
    by blast
  show ?thesis
    unfolding db_wf_def ids
    using assms(1) g fresh fresh3 assms(4,5,6)
    by (auto simp: db_wf_def list_all_iff)
qed

text \<open>A failed call leaves both tables as they were: the transaction is rolled back.\<close>

lemma findOrCreateUser_failure_keeps_tables:
  "fst (findOrCreateUser db now g e n) = Inl err \<Longrightarrow>
     users (snd (findOrCreateUser db now g e n)) = users db
     \<and> user_settings (snd (findOrCreateUser db now g e n)) = user_settings db"
  by (auto simp: findOrCreateUser_def Let_def rollback_tables split: prod.splits sum.splits)

lemma findOrCreateUser_twice_fits:
  assumes "db_wf db" and "filter (\<lambda>r. google_id r = Some googleId) (users db) = []"
    and "fits 255 googleId" and "fits 255 email'"
    and "case name' of None \<Rightarrow> True | Some n \<Rightarrow> fits 255 n"
  shows
    "(let first = findOrCreateUser db t1 (Some googleId) (Some email') name';
          db1 = snd first;
          second = findOrCreateUser db1 t2 (Some googleId) (Some email') name';
          db2 = snd second;
          u = new_user db t1 (Some googleId) (Some email') name'
      in fst first = Inr (Some u)
       \<and> users db1 = users db @ [u]
       \<and> user_settings db1 = user_settings db @ [new_settings db t1 (u_id u)]
       \<and> fst second = Inr (Some (u \<lparr> u_updated_at := t2 \<rparr>))
       \<and> users db2 = users db @ [u \<lparr> u_updated_at := t2 \<rparr>]
       \<and> user_settings db2 = user_settings db1
       \<and> users_id_seq db2 = users_id_seq db1
       \<and> user_settings_id_seq db2 = user_settings_id_seq db1
       \<and> length (filter (\<lambda>r. google_id r = Some googleId) (users db2)) = 1
       \<and> length (filter (\<lambda>s. user_id s = u_id u) (user_settings db2)) = 1
       \<and> db_wf db1 \<and> db_wf db2)"
proof -
  let ?u = "new_user db t1 (Some googleId) (Some email') name'"
  let ?s = "new_settings db t1 (users_id_seq db)"
  let ?db1 = "db \<lparr> users_id_seq := users_id_seq db + 1,
           users := users db @ [?u],
           user_settings_id_seq := user_settings_id_seq db + 1,
           user_settings := user_settings db @ [?s] \<rparr>"
  have one: "findOrCreateUser db t1 (Some googleId) (Some email') name' = (Inr (Some ?u), ?db1)"
    by (rule findOrCreateUser_fresh [OF assms])
  have uid: "u_id ?u = users_id_seq db" and gid: "google_id ?u = Some googleId"
    by (simp_all add: new_user_def)
  have sel: "filter (\<lambda>r. google_id r = Some googleId) (users ?db1) = [?u]"
    using assms(2) by (simp add: new_user_def)
  have upd: "?u \<lparr> u_email := Some email', u_name := name', u_updated_at := t2 \<rparr> = ?u \<lparr> u_updated_at := t2 \<rparr>"
    by (simp add: new_user_def)
  have two: "findOrCreateUser ?db1 t2 (Some googleId) (Some email') name' =
      (Inr (Some (?u \<lparr> u_updated_at := t2 \<rparr>)), ?db1 \<lparr> users := users db @ [?u \<lparr> u_updated_at := t2 \<rparr>] \<rparr>)"
  proof -
    have ne: "filter (\<lambda>r. google_id r = Some googleId) (users ?db1) \<noteq> []"
      by (simp only: sel) simp
    have m: "map (\<lambda>r. if google_id r = Some googleId
                 then r \<lparr> u_email := Some email', u_name := name', u_updated_at := t2 \<rparr> else r) (users ?db1)
            = users db @ [?u \<lparr> u_updated_at := t2 \<rparr>]"
      using update_only_new_row [OF assms(2) gid,
          of "\<lambda>r. r \<lparr> u_email := Some email', u_name := name', u_updated_at := t2 \<rparr>"]
      by (simp add: upd)
    show ?thesis
      unfolding findOrCreateUser_existing [OF ne assms(3,4,5)] sel m
      by (simp add: first_row_def upd)
  qed
  have sel2: "\<And>d. users d = users db @ [?u \<lparr> u_updated_at := t2 \<rparr>] \<Longrightarrow>
      filter (\<lambda>r. google_id r = Some googleId) (users d) = [?u \<lparr> u_updated_at := t2 \<rparr>]"
    using assms(2) by (simp add: new_user_def)
  have sid: "user_id ?s = users_id_seq db"
    by (simp add: new_settings_def)
  have none: "filter (\<lambda>s. user_id s = users_id_seq db) (user_settings db) = []"
    using fresh_user_id(2) [OF assms(1)] by (fastforce simp: filter_empty_conv image_iff)
  have wf1: "db_wf ?db1"
    by (rule db_wf_after_create [OF assms(1,2) gid uid]) (simp_all add: new_settings_def)
  let ?db2 = "db \<lparr> users_id_seq := users_id_seq db + 1,
           users := users db @ [?u \<lparr> u_updated_at := t2 \<rparr>],
           user_settings_id_seq := user_settings_id_seq db + 1,
           user_settings := user_settings db @ [?s] \<rparr>"
  have wf2': "db_wf ?db2"
    by (rule db_wf_after_create [OF assms(1,2)]) (simp_all add: new_user_def new_settings_def)
  have wf2: "\<And>d. users d = users ?db2 \<Longrightarrow> user_settings d = user_settings ?db2 \<Longrightarrow>
      users_id_seq d = users_id_seq ?db2 \<Longrightarrow>
      user_settings_id_seq d = user_settings_id_seq ?db2 \<Longrightarrow> db_wf d"
    using wf2' db_wf_fields by blast
  have gid2: "google_id (?u \<lparr> u_updated_at := t2 \<rparr>) = Some googleId"
    by (simp add: new_user_def)
  show ?thesis
    unfolding Let_def one two snd_conv fst_conv
    by (simp add: uid assms(2) gid2 none sid wf1 wf2)
qed

subsection \<open>Two calls\<close>

text \<open>A name of 256 characters.\<close>

definition long_name :: string where
  "long_name = replicate 256 (CHR ''a'')"

lemma decimal_255: "decimal 255 = ''255''"
  by (simp add: decimal.simps)

lemma long_name_refused: "varchar 255 (Some long_name) = Inl (value_too_long 255)"
  by (simp add: varchar_def long_name_def char_length_def)

text \<open>
  C8 (as stated): two calls with the same arguments leave exactly one users row for the
  Google id. They do not when a value does not fit its column: with a name of 256
  characters the \<^verbatim>\<open>INSERT\<close> is refused, the call throws and the store is as it was, so
  a second call does the same and no row is there.
\<close>

theorem findOrCreateUser_long_name_leaves_no_row:
  "findOrCreateUser empty_db 100 (Some ''1084'') (Some ''ann@example.com'') (Some long_name)
     = (Inl (Error ''value too long for type character varying(255)''), empty_db)
   \<and> findOrCreateUser empty_db 200 (Some ''1084'') (Some ''ann@example.com'') (Some long_name)
     = (Inl (Error ''value too long for type character varying(255)''), empty_db)
   \<and> filter (\<lambda>r. google_id r = Some ''1084'') (users empty_db) = []"
proof -
  have s: "select_users_by_google_id empty_db (Some ''1084'') = Inr []"
    by (simp add: select_users_by_google_id_def bind_text_def empty_db_def)
  have b: "bind_text [Some ''1084'', Some ''ann@example.com'', Some long_name] = Inr ()"
    by (simp add: bind_text_def long_name_def)
  have g: "varchar 255 (Some ''1084'') = Inr (Some ''1084'')"
    and e: "varchar 255 (Some ''ann@example.com'') = Inr (Some ''ann@example.com'')"
    by (simp_all add: varchar_def char_length_def)
  have i: "insert_user empty_db now (Some ''1084'') (Some ''ann@example.com'') (Some long_name)
             = (Inl (value_too_long 255), empty_db)" for now
    by (simp add: insert_user_def bind_err_def b g e long_name_refused)
  have r: "rollback empty_db empty_db = empty_db"
    by (simp add: rollback_def)
  have "findOrCreateUser empty_db now (Some ''1084'') (Some ''ann@example.com'') (Some long_name)
          = (Inl (value_too_long 255), empty_db)" for now
    by (simp add: findOrCreateUser_def s i r)
  then show ?thesis
    by (simp add: value_too_long_def decimal_255 empty_db_def)
qed

text \<open>
  C8 (amended): on a store that satisfies the schema's keys and has no user with this
  Google id, two calls of \<^verbatim>\<open>findOrCreateUser\<close> with the same Google id, email and name,
  the first two strings, each value of at most 255 characters and free of U+0000, do
  this: the first returns the new user and adds one users row and one settings row for
  it; the second returns the same user (only \<^verbatim>\<open>updated_at\<close> moves), adds no row and
  draws no id; afterwards exactly one users row has the Google id and exactly one
  settings row belongs to the user. The two inserts are one transaction: whatever the
  store and the arguments, a call that throws leaves both tables as they were.
\<close>

theorem findOrCreateUser_twice:
  "(db_wf db \<and> filter (\<lambda>r. google_id r = Some googleId) (users db) = []
    \<and> fits 255 googleId \<and> fits 255 email'
    \<and> (case name' of None \<Rightarrow> True | Some n \<Rightarrow> fits 255 n) \<longrightarrow>
     (let first = findOrCreateUser db t1 (Some googleId) (Some email') name';
          db1 = snd first;
          second = findOrCreateUser db1 t2 (Some googleId) (Some email') name';
          db2 = snd second;
          u = new_user db t1 (Some googleId) (Some email') name'
      in fst first = Inr (Some u)
       \<and> users db1 = users db @ [u]
       \<and> user_settings db1 = user_settings db @ [new_settings db t1 (u_id u)]
       \<and> fst second = Inr (Some (u \<lparr> u_updated_at := t2 \<rparr>))
       \<and> users db2 = users db @ [u \<lparr> u_updated_at := t2 \<rparr>]
       \<and> user_settings db2 = user_settings db1
       \<and> users_id_seq db2 = users_id_seq db1
       \<and> user_settings_id_seq db2 = user_settings_id_seq db1
       \<and> length (filter (\<lambda>r. google_id r = Some googleId) (users db2)) = 1
       \<and> length (filter (\<lambda>s. user_id s = u_id u) (user_settings db2)) = 1
       \<and> db_wf db1 \<and> db_wf db2))
   \<and> (fst (findOrCreateUser store now g e n) = Inl error \<longrightarrow>
        users (snd (findOrCreateUser store now g e n)) = users store
        \<and> user_settings (snd (findOrCreateUser store now g e n)) = user_settings store)"
proof (intro conjI impI)
  assume "db_wf db \<and> filter (\<lambda>r. google_id r = Some googleId) (users db) = []
    \<and> fits 255 googleId \<and> fits 255 email'
    \<and> (case name' of None \<Rightarrow> True | Some n \<Rightarrow> fits 255 n)"
  then have a: "db_wf db" "filter (\<lambda>r. google_id r = Some googleId) (users db) = []"
    "fits 255 googleId" "fits 255 email'" "case name' of None \<Rightarrow> True | Some n \<Rightarrow> fits 255 n"
    by blast+
  show "(let first = findOrCreateUser db t1 (Some googleId) (Some email') name';
          db1 = snd first;
          second = findOrCreateUser db1 t2 (Some googleId) (Some email') name';
          db2 = snd second;
          u = new_user db t1 (Some googleId) (Some email') name'
      in fst first = Inr (Some u)
       \<and> users db1 = users db @ [u]
       \<and> user_settings db1 = user_settings db @ [new_settings db t1 (u_id u)]
       \<and> fst second = Inr (Some (u \<lparr> u_updated_at := t2 \<rparr>))
       \<and> users db2 = users db @ [u \<lparr> u_updated_at := t2 \<rparr>]
       \<and> user_settings db2 = user_settings db1
       \<and> users_id_seq db2 = users_id_seq db1
       \<and> user_settings_id_seq db2 = user_settings_id_seq db1
       \<and> length (filter (\<lambda>r. google_id r = Some googleId) (users db2)) = 1
       \<and> length (filter (\<lambda>s. user_id s = u_id u) (user_settings db2)) = 1
       \<and> db_wf db1 \<and> db_wf db2)"
    by (rule findOrCreateUser_twice_fits [OF a])
next
  assume "fst (findOrCreateUser store now g e n) = Inl error"
  then have "users (snd (findOrCreateUser store now g e n)) = users store
     \<and> user_settings (snd (findOrCreateUser store now g e n)) = user_settings store"
    by (rule findOrCreateUser_failure_keeps_tables)
  then show "users (snd (findOrCreateUser store now g e n)) = users store"
    and "user_settings (snd (findOrCreateUser store now g e n)) = user_settings store"
    by blast+
qed

text \<open>
  A store whose rows were restored without moving the settings sequence: the next
  settings id is taken, so the second insert of a new user is refused after the first
  went through.
\<close>

definition restored_db :: database where
  "restored_db =
    \<lparr> users = [new_user empty_db 100 (Some ''1084'') (Some ''ann@example.com'') (Some ''Ann'')],
      user_settings = [new_settings empty_db 100 1],
      users_id_seq = 2, user_settings_id_seq = 1 \<rparr>"

lemma findOrCreateUser_restored:
  "findOrCreateUser restored_db 300 (Some ''2093'') (Some ''bob@example.com'') None =
     (Inl (unique_violation ''user_settings_pkey''),
      restored_db \<lparr> users_id_seq := 3, user_settings_id_seq := 2 \<rparr>)"
proof -
  have s: "select_users_by_google_id restored_db (Some ''2093'') = Inr []"
    by (simp add: select_users_by_google_id_def bind_text_def restored_db_def new_user_def)
  have b: "bind_text [Some ''2093'', Some ''bob@example.com'', None] = Inr ()"
    by (simp add: bind_text_def)
  have g: "varchar 255 (Some ''2093'') = Inr (Some ''2093'')"
    and e: "varchar 255 (Some ''bob@example.com'') = Inr (Some ''bob@example.com'')"
    and n: "varchar 255 None = Inr None"
    by (simp_all add: varchar_def char_length_def)
  let ?u = "new_user restored_db 300 (Some ''2093'') (Some ''bob@example.com'') None"
  let ?d = "restored_db \<lparr> users_id_seq := 3, users := users restored_db @ [?u] \<rparr>"
  have i: "insert_user restored_db 300 (Some ''2093'') (Some ''bob@example.com'') None
             = (Inr [?u], ?d)"
    by (simp add: insert_user_def bind_err_def b g e n Let_def)
      (simp add: new_user_def restored_db_def empty_db_def)
  have u: "u_id ?u = 2"
    by (simp add: new_user_def restored_db_def)
  have t: "insert_user_settings ?d 300 2
             = (Inl (unique_violation ''user_settings_pkey''), ?d \<lparr> user_settings_id_seq := 2 \<rparr>)"
    by (simp add: insert_user_settings_def Let_def new_settings_def restored_db_def
        empty_db_def new_user_def)
  show ?thesis
    by (simp add: findOrCreateUser_def s i u t) (simp add: rollback_def restored_db_def)
qed

theorem findOrCreateUser_twice_witness:
  "db_wf empty_db \<and> filter (\<lambda>r. google_id r = Some ''1084'') (users empty_db) = []
   \<and> fits 255 ''1084'' \<and> fits 255 ''ann@example.com'' \<and> fits 255 ''Ann''
   \<and> users (snd (findOrCreateUser empty_db 100 (Some ''1084'') (Some ''ann@example.com'') (Some ''Ann'')))
        = [new_user empty_db 100 (Some ''1084'') (Some ''ann@example.com'') (Some ''Ann'')]
   \<and> length (filter (\<lambda>r. google_id r = Some ''1084'')
        (users (snd (findOrCreateUser
               (snd (findOrCreateUser empty_db 100 (Some ''1084'') (Some ''ann@example.com'') (Some ''Ann'')))
               200 (Some ''1084'') (Some ''ann@example.com'') (Some ''Ann''))))) = 1
   \<and> length (filter (\<lambda>s. user_id s = 1) (user_settings
        (snd (findOrCreateUser
               (snd (findOrCreateUser empty_db 100 (Some ''1084'') (Some ''ann@example.com'') (Some ''Ann'')))
               200 (Some ''1084'') (Some ''ann@example.com'') (Some ''Ann''))))) = 1
   \<and> fst (findOrCreateUser restored_db 300 (Some ''2093'') (Some ''bob@example.com'') None)
        = Inl (unique_violation ''user_settings_pkey'')
   \<and> users (snd (findOrCreateUser restored_db 300 (Some ''2093'') (Some ''bob@example.com'') None))
        = users restored_db
   \<and> user_settings (snd (findOrCreateUser restored_db 300 (Some ''2093'') (Some ''bob@example.com'') None))
        = user_settings restored_db
   \<and> users_id_seq (snd (findOrCreateUser restored_db 300 (Some ''2093'') (Some ''bob@example.com'') None))
        = users_id_seq restored_db + 1"
proof -
  have wf: "db_wf empty_db"
    by (simp add: db_wf_def empty_db_def google_ids_def)
  have fresh: "filter (\<lambda>r. google_id r = Some ''1084'') (users empty_db) = []"
    by (simp add: empty_db_def)
  have fits: "fits 255 ''1084''" "fits 255 ''ann@example.com''" "fits 255 ''Ann''"
    by (simp_all add: fits_def char_length_def)
  have uid: "u_id (new_user empty_db 100 (Some ''1084'') (Some ''ann@example.com'') (Some ''Ann'')) = 1"
    by (simp add: new_user_def empty_db_def)
  have none: "users empty_db = []" "user_settings empty_db = []"
    by (simp_all add: empty_db_def)
  have sid: "user_id (new_settings empty_db 100 1) = 1"
    by (simp add: new_settings_def)
  have gid: "google_id (new_user empty_db 100 (Some ''1084'') (Some ''ann@example.com'') (Some ''Ann''))
               = Some ''1084''"
    by (simp add: new_user_def)
  have failed: "fst (findOrCreateUser restored_db 300 (Some ''2093'') (Some ''bob@example.com'') None)
        = Inl (unique_violation ''user_settings_pkey'')"
    by (simp add: findOrCreateUser_restored)
  have seq: "users_id_seq (snd (findOrCreateUser restored_db 300 (Some ''2093'') (Some ''bob@example.com'') None))
        = users_id_seq restored_db + 1"
    by (simp add: findOrCreateUser_restored) (simp add: restored_db_def)
  show ?thesis
    using findOrCreateUser_twice [of empty_db "''1084''" "''ann@example.com''" "Some ''Ann''" 100 200
        restored_db 300 "Some ''2093''" "Some ''bob@example.com''" None
        "unique_violation ''user_settings_pkey''"]
      wf fresh fits failed seq
    by (simp add: Let_def uid none sid gid)
qed

section \<open>AES-256 in CBC mode\<close>

text \<open>
  \<^verbatim>\<open>crypto.createCipheriv('aes-256-cbc', key, iv)\<close> names the cipher of FIPS 197 with a
  256-bit key (14 rounds) in cipher block chaining mode, with the PKCS#7 padding the
  library applies by default. A block and a round key are 16 bytes, in the order the
  bytes arrive (column after column of the state).
\<close>

type_synonym byte = "8 word"

definition sbox_table :: "byte list" where
  "sbox_table =
    [
     0x63, 0x7c, 0x77, 0x7b, 0xf2, 0x6b, 0x6f, 0xc5, 0x30, 0x01, 0x67, 0x2b, 0xfe, 0xd7, 0xab, 0x76,
     0xca, 0x82, 0xc9, 0x7d, 0xfa, 0x59, 0x47, 0xf0, 0xad, 0xd4, 0xa2, 0xaf, 0x9c, 0xa4, 0x72, 0xc0,
     0xb7, 0xfd, 0x93, 0x26, 0x36, 0x3f, 0xf7, 0xcc, 0x34, 0xa5, 0xe5, 0xf1, 0x71, 0xd8, 0x31, 0x15,
     0x04, 0xc7, 0x23, 0xc3, 0x18, 0x96, 0x05, 0x9a, 0x07, 0x12, 0x80, 0xe2, 0xeb, 0x27, 0xb2, 0x75,
     0x09, 0x83, 0x2c, 0x1a, 0x1b, 0x6e, 0x5a, 0xa0, 0x52, 0x3b, 0xd6, 0xb3, 0x29, 0xe3, 0x2f, 0x84,
     0x53, 0xd1, 0x00, 0xed, 0x20, 0xfc, 0xb1, 0x5b, 0x6a, 0xcb, 0xbe, 0x39, 0x4a, 0x4c, 0x58, 0xcf,
     0xd0, 0xef, 0xaa, 0xfb, 0x43, 0x4d, 0x33, 0x85, 0x45, 0xf9, 0x02, 0x7f, 0x50, 0x3c, 0x9f, 0xa8,
     0x51, 0xa3, 0x40, 0x8f, 0x92, 0x9d, 0x38, 0xf5, 0xbc, 0xb6, 0xda, 0x21, 0x10, 0xff, 0xf3, 0xd2,
     0xcd, 0x0c, 0x13, 0xec, 0x5f, 0x97, 0x44, 0x17, 0xc4, 0xa7, 0x7e, 0x3d, 0x64, 0x5d, 0x19, 0x73,
     0x60, 0x81, 0x4f, 0xdc, 0x22, 0x2a, 0x90, 0x88, 0x46, 0xee, 0xb8, 0x14, 0xde, 0x5e, 0x0b, 0xdb,
     0xe0, 0x32, 0x3a, 0x0a, 0x49, 0x06, 0x24, 0x5c, 0xc2, 0xd3, 0xac, 0x62, 0x91, 0x95, 0xe4, 0x79,
     0xe7, 0xc8, 0x37, 0x6d, 0x8d, 0xd5, 0x4e, 0xa9, 0x6c, 0x56, 0xf4, 0xea, 0x65, 0x7a, 0xae, 0x08,
     0xba, 0x78, 0x25, 0x2e, 0x1c, 0xa6, 0xb4, 0xc6, 0xe8, 0xdd, 0x74, 0x1f, 0x4b, 0xbd, 0x8b, 0x8a,
     0x70, 0x3e, 0xb5, 0x66, 0x48, 0x03, 0xf6, 0x0e, 0x61, 0x35, 0x57, 0xb9, 0x86, 0xc1, 0x1d, 0x9e,
     0xe1, 0xf8, 0x98, 0x11, 0x69, 0xd9, 0x8e, 0x94, 0x9b, 0x1e, 0x87, 0xe9, 0xce, 0x55, 0x28, 0xdf,
     0x8c, 0xa1, 0x89, 0x0d, 0xbf, 0xe6, 0x42, 0x68, 0x41, 0x99, 0x2d, 0x0f, 0xb0, 0x54, 0xbb, 0x16
    ]"

definition inv_sbox_table :: "byte list" where
  "inv_sbox_table =
    [
     0x52, 0x09, 0x6a, 0xd5, 0x30, 0x36, 0xa5, 0x38, 0xbf, 0x40, 0xa3, 0x9e, 0x81, 0xf3, 0xd7, 0xfb,
     0x7c, 0xe3, 0x39, 0x82, 0x9b, 0x2f, 0xff, 0x87, 0x34, 0x8e, 0x43, 0x44, 0xc4, 0xde, 0xe9, 0xcb,
     0x54, 0x7b, 0x94, 0x32, 0xa6, 0xc2, 0x23, 0x3d, 0xee, 0x4c, 0x95, 0x0b, 0x42, 0xfa, 0xc3, 0x4e,
     0x08, 0x2e, 0xa1, 0x66, 0x28, 0xd9, 0x24, 0xb2, 0x76, 0x5b, 0xa2, 0x49, 0x6d, 0x8b, 0xd1, 0x25,
     0x72, 0xf8, 0xf6, 0x64, 0x86, 0x68, 0x98, 0x16, 0xd4, 0xa4, 0x5c, 0xcc, 0x5d, 0x65, 0xb6, 0x92,
     0x6c, 0x70, 0x48, 0x50, 0xfd, 0xed, 0xb9, 0xda, 0x5e, 0x15, 0x46, 0x57, 0xa7, 0x8d, 0x9d, 0x84,
     0x90, 0xd8, 0xab, 0x00, 0x8c, 0xbc, 0xd3, 0x0a, 0xf7, 0xe4, 0x58, 0x05, 0xb8, 0xb3, 0x45, 0x06,
     0xd0, 0x2c, 0x1e, 0x8f, 0xca, 0x3f, 0x0f, 0x02, 0xc1, 0xaf, 0xbd, 0x03, 0x01, 0x13, 0x8a, 0x6b,
     0x3a, 0x91, 0x11, 0x41, 0x4f, 0x67, 0xdc, 0xea, 0x97, 0xf2, 0xcf, 0xce, 0xf0, 0xb4, 0xe6, 0x73,
     0x96, 0xac, 0x74, 0x22, 0xe7, 0xad, 0x35, 0x85, 0xe2, 0xf9, 0x37, 0xe8, 0x1c, 0x75, 0xdf, 0x6e,
     0x47, 0xf1, 0x1a, 0x71, 0x1d, 0x29, 0xc5, 0x89, 0x6f, 0xb7, 0x62, 0x0e, 0xaa, 0x18, 0xbe, 0x1b,
     0xfc, 0x56, 0x3e, 0x4b, 0xc6, 0xd2, 0x79, 0x20, 0x9a, 0xdb, 0xc0, 0xfe, 0x78, 0xcd, 0x5a, 0xf4,
     0x1f, 0xdd, 0xa8, 0x33, 0x88, 0x07, 0xc7, 0x31, 0xb1, 0x12, 0x10, 0x59, 0x27, 0x80, 0xec, 0x5f,
     0x60, 0x51, 0x7f, 0xa9, 0x19, 0xb5, 0x4a, 0x0d, 0x2d, 0xe5, 0x7a, 0x9f, 0x93, 0xc9, 0x9c, 0xef,
     0xa0, 0xe0, 0x3b, 0x4d, 0xae, 0x2a, 0xf5, 0xb0, 0xc8, 0xeb, 0xbb, 0x3c, 0x83, 0x53, 0x99, 0x61,
     0x17, 0x2b, 0x04, 0x7e, 0xba, 0x77, 0xd6, 0x26, 0xe1, 0x69, 0x14, 0x63, 0x55, 0x21, 0x0c, 0x7d
    ]"

definition sub_byte :: "byte \<Rightarrow> byte" where
  "sub_byte b = sbox_table ! unat b"

definition inv_sub_byte :: "byte \<Rightarrow> byte" where
  "inv_sub_byte b = inv_sbox_table ! unat b"

definition sub_bytes :: "byte list \<Rightarrow> byte list" where
  "sub_bytes s = map sub_byte s"

definition inv_sub_bytes :: "byte list \<Rightarrow> byte list" where
  "inv_sub_bytes s = map inv_sub_byte s"

definition shift_rows :: "byte list \<Rightarrow> byte list" where
  "shift_rows s = map (\<lambda>i. s ! i) [0, 5, 10, 15, 4, 9, 14, 3, 8, 13, 2, 7, 12, 1, 6, 11]"

definition inv_shift_rows :: "byte list \<Rightarrow> byte list" where
  "inv_shift_rows s = map (\<lambda>i. s ! i) [0, 13, 10, 7, 4, 1, 14, 11, 8, 5, 2, 15, 12, 9, 6, 3]"

text \<open>Multiplication by \<open>x\<close> in GF(2^8), modulo \<open>x^8 + x^4 + x^3 + x + 1\<close>.\<close>

definition xtime :: "byte \<Rightarrow> byte" where
  "xtime b = (if bit b 7 then push_bit 1 b XOR 0x1b else push_bit 1 b)"

definition mul3 :: "byte \<Rightarrow> byte" where
  "mul3 b = xtime b XOR b"

definition mul9 :: "byte \<Rightarrow> byte" where
  "mul9 b = xtime (xtime (xtime b)) XOR b"

definition mul11 :: "byte \<Rightarrow> byte" where
  "mul11 b = xtime (xtime (xtime b)) XOR xtime b XOR b"

definition mul13 :: "byte \<Rightarrow> byte" where
  "mul13 b = xtime (xtime (xtime b)) XOR xtime (xtime b) XOR b"

definition mul14 :: "byte \<Rightarrow> byte" where
  "mul14 b = xtime (xtime (xtime b)) XOR xtime (xtime b) XOR xtime b"

fun mix_columns :: "byte list \<Rightarrow> byte list" where
  "mix_columns (a0 # a1 # a2 # a3 # rest) =
     (xtime a0 XOR mul3 a1 XOR a2 XOR a3)
     # (a0 XOR xtime a1 XOR mul3 a2 XOR a3)
     # (a0 XOR a1 XOR xtime a2 XOR mul3 a3)
     # (mul3 a0 XOR a1 XOR a2 XOR xtime a3)
     # mix_columns rest"
| "mix_columns rest = []"

fun inv_mix_columns :: "byte list \<Rightarrow> byte list" where
  "inv_mix_columns (a0 # a1 # a2 # a3 # rest) =
     (mul14 a0 XOR mul11 a1 XOR mul13 a2 XOR mul9 a3)
     # (mul9 a0 XOR mul14 a1 XOR mul11 a2 XOR mul13 a3)
     # (mul13 a0 XOR mul9 a1 XOR mul14 a2 XOR mul11 a3)
     # (mul11 a0 XOR mul13 a1 XOR mul9 a2 XOR mul14 a3)
     # inv_mix_columns rest"
| "inv_mix_columns rest = []"

definition xor_bytes :: "byte list \<Rightarrow> byte list \<Rightarrow> byte list" where
  "xor_bytes a b = map2 (XOR) a b"

subsection \<open>Key expansion\<close>

definition rot_word :: "byte list \<Rightarrow> byte list" where
  "rot_word w = drop 1 w @ take 1 w"

definition key_word :: "byte list \<Rightarrow> nat \<Rightarrow> byte list" where
  "key_word ks i = take 4 (drop (4 * i) ks)"

text \<open>The next eight words of the schedule from the last eight and the round constant.\<close>

definition next_key_block :: "byte list \<Rightarrow> byte \<Rightarrow> byte list" where
  "next_key_block prev rc =
    (let t = xor_bytes (sub_bytes (rot_word (key_word prev 7))) [rc, 0, 0, 0];
         n0 = xor_bytes (key_word prev 0) t;
         n1 = xor_bytes (key_word prev 1) n0;
         n2 = xor_bytes (key_word prev 2) n1;
         n3 = xor_bytes (key_word prev 3) n2;
         n4 = xor_bytes (key_word prev 4) (sub_bytes n3);
         n5 = xor_bytes (key_word prev 5) n4;
         n6 = xor_bytes (key_word prev 6) n5;
         n7 = xor_bytes (key_word prev 7) n6
     in n0 @ n1 @ n2 @ n3 @ n4 @ n5 @ n6 @ n7)"

fun key_blocks :: "byte list \<Rightarrow> byte list \<Rightarrow> byte list" where
  "key_blocks prev [] = []"
| "key_blocks prev (rc # rcs) =
     (let n = next_key_block prev rc in n @ key_blocks n rcs)"

definition expand_key :: "byte list \<Rightarrow> byte list" where
  "expand_key key = key @ key_blocks key [0x01, 0x02, 0x04, 0x08, 0x10, 0x20, 0x40]"

definition round_keys :: "byte list \<Rightarrow> byte list list" where
  "round_keys key = map (\<lambda>i. take 16 (drop (16 * i) (expand_key key))) [0..<15]"

subsection \<open>The block cipher and its inverse\<close>

fun rounds :: "byte list list \<Rightarrow> byte list \<Rightarrow> byte list" where
  "rounds [] s = s"
| "rounds [k] s = xor_bytes (shift_rows (sub_bytes s)) k"
| "rounds (k # ks) s = rounds ks (xor_bytes (mix_columns (shift_rows (sub_bytes s))) k)"

fun inv_rounds :: "byte list list \<Rightarrow> byte list \<Rightarrow> byte list" where
  "inv_rounds [] s = s"
| "inv_rounds [k] s = inv_sub_bytes (inv_shift_rows (xor_bytes s k))"
| "inv_rounds (k # ks) s =
     inv_sub_bytes (inv_shift_rows (inv_mix_columns (xor_bytes (inv_rounds ks s) k)))"

definition encrypt_block :: "byte list list \<Rightarrow> byte list \<Rightarrow> byte list" where
  "encrypt_block rks s = (case rks of [] \<Rightarrow> s | k0 # ks \<Rightarrow> rounds ks (xor_bytes s k0))"

definition decrypt_block :: "byte list list \<Rightarrow> byte list \<Rightarrow> byte list" where
  "decrypt_block rks s = (case rks of [] \<Rightarrow> s | k0 # ks \<Rightarrow> xor_bytes (inv_rounds ks s) k0)"

subsection \<open>Chaining and padding\<close>

function blocks16 :: "byte list \<Rightarrow> byte list list" where
  "blocks16 xs = (if xs = [] then [] else take 16 xs # blocks16 (drop 16 xs))"
  by pat_completeness auto
termination
  by (relation "measure length") auto

declare blocks16.simps [simp del]

fun cbc_encrypt :: "byte list list \<Rightarrow> byte list \<Rightarrow> byte list list \<Rightarrow> byte list list" where
  "cbc_encrypt rks prev [] = []"
| "cbc_encrypt rks prev (b # bs) =
     (let c = encrypt_block rks (xor_bytes b prev) in c # cbc_encrypt rks c bs)"

fun cbc_decrypt :: "byte list list \<Rightarrow> byte list \<Rightarrow> byte list list \<Rightarrow> byte list list" where
  "cbc_decrypt rks prev [] = []"
| "cbc_decrypt rks prev (c # cs) =
     xor_bytes (decrypt_block rks c) prev # cbc_decrypt rks c cs"

definition pkcs7_pad :: "byte list \<Rightarrow> byte list" where
  "pkcs7_pad m = (let n = 16 - length m mod 16 in m @ replicate n (of_nat n))"

definition pkcs7_unpad :: "byte list \<Rightarrow> byte list option" where
  "pkcs7_unpad d =
    (if d = [] then None
     else let n = unat (last d) in
       if n = 0 \<or> 16 < n \<or> length d < n \<or> drop (length d - n) d \<noteq> replicate n (last d)
       then None
       else Some (take (length d - n) d))"

definition aes_256_cbc_encrypt :: "byte list \<Rightarrow> byte list \<Rightarrow> byte list \<Rightarrow> byte list" where
  "aes_256_cbc_encrypt key iv m =
    concat (cbc_encrypt (round_keys key) iv (blocks16 (pkcs7_pad m)))"

definition aes_256_cbc_decrypt :: "byte list \<Rightarrow> byte list \<Rightarrow> byte list \<Rightarrow> byte list option" where
  "aes_256_cbc_decrypt key iv c =
    (if c = [] \<or> length c mod 16 \<noteq> 0 then None
     else pkcs7_unpad (concat (cbc_decrypt (round_keys key) iv (blocks16 c))))"

section \<open>Key encryption at rest\<close>

subsection \<open>Buffers and encodings\<close>

text \<open>
  A JavaScript string is a sequence of 16-bit code units. A code unit in D800..DBFF
  (a high surrogate) followed by one in DC00..DFFF (a low surrogate) stands for one
  character beyond U+FFFF; a surrogate that is not part of such a pair is a lone one.
\<close>

type_synonym js_string = "16 word list"

definition high_surrogate :: "16 word \<Rightarrow> bool" where
  "high_surrogate u = (0xD800 \<le> unat u \<and> unat u \<le> 0xDBFF)"

definition low_surrogate :: "16 word \<Rightarrow> bool" where
  "low_surrogate u = (0xDC00 \<le> unat u \<and> unat u \<le> 0xDFFF)"

text \<open>The bytes of one code point.\<close>

definition utf8_of_code_point :: "nat \<Rightarrow> byte list" where
  "utf8_of_code_point c =
    (if c < 0x80 then [of_nat c]
     else if c < 0x800 then [of_nat (0xC0 + c div 64), of_nat (0x80 + c mod 64)]
     else if c < 0x10000
     then [of_nat (0xE0 + c div 4096), of_nat (0x80 + c div 64 mod 64), of_nat (0x80 + c mod 64)]
     else [of_nat (0xF0 + c div 262144), of_nat (0x80 + c div 4096 mod 64),
           of_nat (0x80 + c div 64 mod 64), of_nat (0x80 + c mod 64)])"

text \<open>
  \<^verbatim>\<open>Buffer.from(s, 'utf8')\<close>, which is what \<^verbatim>\<open>cipher.update(s, 'utf8')\<close> reads: a
  surrogate pair is one code point, a lone surrogate is written as U+FFFD.
\<close>

fun utf8_bytes :: "js_string \<Rightarrow> byte list" where
  "utf8_bytes [] = []"
| "utf8_bytes [u] =
     utf8_of_code_point (if high_surrogate u \<or> low_surrogate u then 0xFFFD else unat u)"
| "utf8_bytes (u # v # rest) =
     (if high_surrogate u \<and> low_surrogate v
      then utf8_of_code_point (0x10000 + (unat u - 0xD800) * 1024 + (unat v - 0xDC00))
           @ utf8_bytes rest
      else utf8_of_code_point (if high_surrogate u \<or> low_surrogate u then 0xFFFD else unat u)
           @ utf8_bytes (v # rest))"

text \<open>The code units of one code point.\<close>

definition code_units :: "nat \<Rightarrow> js_string" where
  "code_units c =
    (if c < 0x10000 then [of_nat c]
     else [of_nat (0xD800 + (c - 0x10000) div 1024), of_nat (0xDC00 + (c - 0x10000) mod 1024)])"

definition between :: "byte \<Rightarrow> nat \<Rightarrow> nat \<Rightarrow> bool" where
  "between b lo hi = (lo \<le> unat b \<and> unat b \<le> hi)"

text \<open>
  \<^verbatim>\<open>buffer.toString('utf8')\<close>: the decoder of the Encoding Standard. A byte that cannot
  begin a character, and a sequence broken off before its end, each become one U+FFFD;
  the byte that broke a sequence off is read again. The second byte of a sequence is
  held to the range that excludes overlong forms, surrogates and code points beyond
  U+10FFFF.
\<close>

fun utf8_string :: "byte list \<Rightarrow> js_string" where
  "utf8_string [] = []"
| "utf8_string (b # bs) =
     (if unat b < 0x80 then of_nat (unat b) # utf8_string bs
      else if 0xC2 \<le> unat b \<and> unat b \<le> 0xDF then
        (case bs of
           [] \<Rightarrow> [0xFFFD]
         | b1 # r1 \<Rightarrow>
             if between b1 0x80 0xBF
             then code_units ((unat b - 0xC0) * 64 + (unat b1 - 0x80)) @ utf8_string r1
             else 0xFFFD # utf8_string bs)
      else if 0xE0 \<le> unat b \<and> unat b \<le> 0xEF then
        (case bs of
           [] \<Rightarrow> [0xFFFD]
         | b1 # r1 \<Rightarrow>
             if between b1 (if unat b = 0xE0 then 0xA0 else 0x80) (if unat b = 0xED then 0x9F else 0xBF)
             then (case r1 of
                     [] \<Rightarrow> [0xFFFD]
                   | b2 # r2 \<Rightarrow>
                       if between b2 0x80 0xBF
                       then code_units ((unat b - 0xE0) * 4096 + (unat b1 - 0x80) * 64
                                        + (unat b2 - 0x80)) @ utf8_string r2
                       else 0xFFFD # utf8_string r1)
             else 0xFFFD # utf8_string bs)
      else if 0xF0 \<le> unat b \<and> unat b \<le> 0xF4 then
        (case bs of
           [] \<Rightarrow> [0xFFFD]
         | b1 # r1 \<Rightarrow>
             if between b1 (if unat b = 0xF0 then 0x90 else 0x80) (if unat b = 0xF4 then 0x8F else 0xBF)
             then (case r1 of
                     [] \<Rightarrow> [0xFFFD]
                   | b2 # r2 \<Rightarrow>
                       if between b2 0x80 0xBF
                       then (case r2 of
                               [] \<Rightarrow> [0xFFFD]
                             | b3 # r3 \<Rightarrow>
                                 if between b3 0x80 0xBF
                                 then code_units ((unat b - 0xF0) * 262144 + (unat b1 - 0x80) * 4096
                                                  + (unat b2 - 0x80) * 64 + (unat b3 - 0x80))
                                      @ utf8_string r3
                                 else 0xFFFD # utf8_string r2)
                       else 0xFFFD # utf8_string r1)
             else 0xFFFD # utf8_string bs)
      else 0xFFFD # utf8_string bs)"

text \<open>\<^verbatim>\<open>String.prototype.toWellFormed\<close>: every lone surrogate replaced by U+FFFD.\<close>

fun toWellFormed :: "js_string \<Rightarrow> js_string" where
  "toWellFormed [] = []"
| "toWellFormed [u] = [if high_surrogate u \<or> low_surrogate u then 0xFFFD else u]"
| "toWellFormed (u # v # rest) =
     (if high_surrogate u \<and> low_surrogate v then u # v # toWellFormed rest
      else (if high_surrogate u \<or> low_surrogate u then 0xFFFD else u) # toWellFormed (v # rest))"

text \<open>\<^verbatim>\<open>String.prototype.isWellFormed\<close>: no lone surrogate.\<close>

fun isWellFormed :: "js_string \<Rightarrow> bool" where
  "isWellFormed [] = True"
| "isWellFormed [u] = (\<not> high_surrogate u \<and> \<not> low_surrogate u)"
| "isWellFormed (u # v # rest) =
     (if high_surrogate u \<and> low_surrogate v then isWellFormed rest
      else \<not> high_surrogate u \<and> \<not> low_surrogate u \<and> isWellFormed (v # rest))"

text \<open>The JavaScript string of a text whose characters are below U+0100.\<close>

definition js_text :: "string \<Rightarrow> js_string" where
  "js_text s = map (\<lambda>c. of_nat (of_char c)) s"

text \<open>\<^verbatim>\<open>buffer.toString('hex')\<close>: two lower-case digits a byte.\<close>

definition hex_char :: "nat \<Rightarrow> char" where
  "hex_char n = ''0123456789abcdef'' ! n"

definition hex_encode :: "byte list \<Rightarrow> string" where
  "hex_encode bs = concat (map (\<lambda>b. [hex_char (unat b div 16), hex_char (unat b mod 16)]) bs)"

text \<open>
  \<^verbatim>\<open>Buffer.from(s, 'hex')\<close>: pairs of digits of either case; decoding stops at the
  first pair that is not two digits, and a last single character is dropped.
\<close>

definition hex_value :: "char \<Rightarrow> nat option" where
  "hex_value c =
    (let n = of_char c :: nat in
     if 48 \<le> n \<and> n \<le> 57 then Some (n - 48)
     else if 97 \<le> n \<and> n \<le> 102 then Some (n - 87)
     else if 65 \<le> n \<and> n \<le> 70 then Some (n - 55)
     else None)"

fun hex_decode :: "string \<Rightarrow> byte list" where
  "hex_decode (a # b # rest) =
     (case (hex_value a, hex_value b) of
        (Some x, Some y) \<Rightarrow> of_nat (16 * x + y) # hex_decode rest
      | _ \<Rightarrow> [])"
| "hex_decode rest = []"

subsection \<open>encryption.js\<close>

text \<open>\<open>env\<close> is \<^verbatim>\<open>process.env.ENCRYPTION_KEY\<close>.\<close>

definition getEncryptionKey :: "string option \<Rightarrow> js_error + byte list" where
  "getEncryptionKey env =
    (case env of
       None \<Rightarrow> Inl (Error ''ENCRYPTION_KEY environment variable is not set'')
     | Some key \<Rightarrow>
         if key = [] then Inl (Error ''ENCRYPTION_KEY environment variable is not set'')
         else let keyBuffer = hex_decode key in
           if length keyBuffer \<noteq> 32
           then Inl (Error ''ENCRYPTION_KEY must be 32 bytes (64 hex characters). Generate with: openssl rand -hex 32'')
           else Inr keyBuffer)"

text \<open>
  \<^verbatim>\<open>createCipheriv\<close> and \<^verbatim>\<open>createDecipheriv\<close> refuse a key that is not 32 bytes and
  an initialization vector that is not 16; \<^verbatim>\<open>update\<close> refuses a hex string of odd
  length; \<^verbatim>\<open>final\<close> throws when the data is not a whole number of blocks or the
  padding is wrong, with the texts of OpenSSL 3 (Node 18).
\<close>

definition createCipheriv :: "byte list \<Rightarrow> byte list \<Rightarrow> js_error + unit" where
  "createCipheriv key iv =
    (if length key \<noteq> 32 then Inl (Error ''Invalid key length'')
     else if length iv \<noteq> 16 then Inl (Error ''Invalid initialization vector'')
     else Inr ())"

definition createDecipheriv :: "byte list \<Rightarrow> byte list \<Rightarrow> js_error + unit" where
  "createDecipheriv key iv = createCipheriv key iv"

definition cipher_update_final :: "byte list \<Rightarrow> byte list \<Rightarrow> js_string \<Rightarrow> string" where
  "cipher_update_final key iv plaintext = hex_encode (aes_256_cbc_encrypt key iv (utf8_bytes plaintext))"

definition decipher_update_final :: "byte list \<Rightarrow> byte list \<Rightarrow> string \<Rightarrow> js_error + js_string" where
  "decipher_update_final key iv encrypted =
    (if odd (length encrypted)
     then Inl (Error (''The argument 'encoding' is invalid for data of length ''
                      @ decimal (length encrypted) @ ''. Received '' @ quoted ''hex''))
     else let data = hex_decode encrypted in
       if data = [] \<or> length data mod 16 \<noteq> 0
       then Inl (Error ''error:1C80006B:Provider routines::wrong final block length'')
       else case aes_256_cbc_decrypt key iv data of
              None \<Rightarrow> Inl (Error ''error:1C800064:Provider routines::bad decrypt'')
            | Some bytes \<Rightarrow> Inr (utf8_string bytes))"

record encrypted_key =
  encrypted :: string
  iv_hex :: string

text \<open>
  \<open>random_iv\<close> is what \<^verbatim>\<open>crypto.randomBytes(IV_LENGTH)\<close> returned. The result is what
  the caller gets and what was written to the console.
\<close>

definition encryptApiKey ::
  "string option \<Rightarrow> byte list \<Rightarrow> js_string option \<Rightarrow> (js_error + encrypted_key) \<times> log_entry list" where
  "encryptApiKey env random_iv plaintext =
    (case plaintext of
       None \<Rightarrow> (Inl (Error ''Cannot encrypt empty value''), [])
     | Some p \<Rightarrow>
         if p = [] then (Inl (Error ''Cannot encrypt empty value''), [])
         else
           (case bind_err (getEncryptionKey env) (\<lambda>key.
                   bind_err (createCipheriv key random_iv) (\<lambda>cipher.
                     Inr \<lparr> encrypted = cipher_update_final key random_iv p,
                           iv_hex = hex_encode random_iv \<rparr>)) of
              Inr r \<Rightarrow> (Inr r, [])
            | Inl error \<Rightarrow>
                (Inl (Error ''Failed to encrypt API key''),
                 [ConsoleErrorText ''Encryption error:'' (message error)])))"

definition decryptApiKey ::
  "string option \<Rightarrow> string option \<Rightarrow> string option \<Rightarrow> (js_error + js_string) \<times> log_entry list" where
  "decryptApiKey env encrypted' ivHex =
    (if \<not> truthy encrypted' \<or> \<not> truthy ivHex
     then (Inl (Error ''Cannot decrypt: missing encrypted data or IV''), [])
     else
       (case (let iv = hex_decode (case ivHex of None \<Rightarrow> [] | Some s \<Rightarrow> s) in
              bind_err (getEncryptionKey env) (\<lambda>key.
                bind_err (createDecipheriv key iv) (\<lambda>decipher.
                  decipher_update_final key iv (case encrypted' of None \<Rightarrow> [] | Some s \<Rightarrow> s)))) of
          Inr decrypted \<Rightarrow> (Inr decrypted, [])
        | Inl error \<Rightarrow>
            (Inl (Error ''Failed to decrypt API key''),
             [ConsoleErrorText ''Decryption error:'' (message error)])))"

definition validateEncryptionKey :: "string option \<Rightarrow> bool \<times> log_entry list" where
  "validateEncryptionKey env =
    (case getEncryptionKey env of
       Inr key \<Rightarrow> (True, [])
     | Inl error \<Rightarrow> (False, [ConsoleErrorText ''Encryption key validation failed:'' (message error)]))"

definition sample_env :: "string option" where
  "sample_env = Some ''000102030405060708090a0b0c0d0e0f101112131415161718191a1b1c1d1e1f''"

definition sample_iv :: "byte list" where
  "sample_iv = [0x00, 0x01, 0x02, 0x03, 0x04, 0x05, 0x06, 0x07, 0x08, 0x09, 0x0a, 0x0b, 0x0c, 0x0d, 0x0e, 0x0f]"



section \<open>The cipher inverts\<close>

lemma sbox_inverse_table:
  "list_all (\<lambda>n. inv_sbox_table ! unat (sbox_table ! n) = of_nat n) [0..<256]"
  by code_simp

lemma inv_sub_byte_sub_byte: "inv_sub_byte (sub_byte b) = b"
proof -
  have "unat b < 2 ^ LENGTH(8)"
    by (rule unsigned_less)
  then have "unat b < 256"
    by simp
  then have "inv_sbox_table ! unat (sbox_table ! unat b) = of_nat (unat b)"
    using sbox_inverse_table by (simp add: list_all_iff)
  then show ?thesis
    by (simp add: inv_sub_byte_def sub_byte_def)
qed

lemma inv_sub_bytes_sub_bytes: "inv_sub_bytes (sub_bytes s) = s"
  by (simp add: inv_sub_bytes_def sub_bytes_def inv_sub_byte_sub_byte map_idI)

lemma length16_cases:
  assumes "length (s::'a list) = 16"
  obtains a0 a1 a2 a3 a4 a5 a6 a7 a8 a9 a10 a11 a12 a13 a14 a15
  where "s = [a0, a1, a2, a3, a4, a5, a6, a7, a8, a9, a10, a11, a12, a13, a14, a15]"
  using assms by (auto simp: eval_nat_numeral length_Suc_conv)

lemma inv_shift_rows_shift_rows:
  assumes "length s = 16" shows "inv_shift_rows (shift_rows s) = s"
proof -
  from assms obtain a0 a1 a2 a3 a4 a5 a6 a7 a8 a9 a10 a11 a12 a13 a14 a15
    where "s = [a0, a1, a2, a3, a4, a5, a6, a7, a8, a9, a10, a11, a12, a13, a14, a15]"
    by (rule length16_cases)
  then show ?thesis
    by (simp add: inv_shift_rows_def shift_rows_def)
qed

lemma xtime_xor: "xtime (a XOR b) = xtime a XOR xtime b"
  by (simp add: xtime_def bit_xor_iff ac_simps)

lemma xor_cancel3: "(a::byte) XOR (a XOR b) = b"
  by (simp add: xor.assoc [symmetric])

lemma inv_mix_columns_mix_columns:
  "length s mod 4 = 0 \<Longrightarrow> inv_mix_columns (mix_columns s) = s"
proof (induction s rule: mix_columns.induct)
  case (1 a0 a1 a2 a3 rest)
  then have "inv_mix_columns (mix_columns rest) = rest" by simp
  then show ?case
    by (simp add: mul3_def mul9_def mul11_def mul13_def mul14_def xtime_xor
        xor.assoc xor.commute xor.left_commute xor_cancel3)
qed (auto)

lemma xor_bytes_cancel:
  "length k = length s \<Longrightarrow> xor_bytes (xor_bytes s k) k = s"
  by (induction s k rule: list_induct2') (simp_all add: xor_bytes_def xor.assoc)

lemma length_xor_bytes: "length (xor_bytes a b) = min (length a) (length b)"
  by (simp add: xor_bytes_def)

lemma length_sub_bytes: "length (sub_bytes s) = length s"
  by (simp add: sub_bytes_def)

lemma length_shift_rows: "length (shift_rows s) = 16"
  by (simp add: shift_rows_def)

lemma length_mix_columns: "length s mod 4 = 0 \<Longrightarrow> length (mix_columns s) = length s"
proof (induction s rule: mix_columns.induct)
  case (1 a0 a1 a2 a3 rest)
  then show ?case by simp
qed simp_all

lemma length_rounds:
  "\<forall>k \<in> set ks. length k = 16 \<Longrightarrow> length s = 16 \<Longrightarrow> length (rounds ks s) = 16"
proof (induction ks s rule: rounds.induct)
  case (1 s)
  then show ?case by simp
next
  case (2 k s)
  then show ?case by (simp add: length_xor_bytes length_shift_rows)
next
  case (3 k v va s)
  have "length (xor_bytes (mix_columns (shift_rows (sub_bytes s))) k) = 16"
    using "3.prems" by (simp add: length_xor_bytes length_mix_columns length_shift_rows)
  then show ?case
    using "3.IH" "3.prems" by simp
qed

lemma inv_rounds_rounds:
  "\<forall>k \<in> set ks. length k = 16 \<Longrightarrow> length s = 16 \<Longrightarrow> inv_rounds ks (rounds ks s) = s"
proof (induction ks s rule: rounds.induct)
  case (1 s)
  then show ?case by simp
next
  case (2 k s)
  have "xor_bytes (xor_bytes (shift_rows (sub_bytes s)) k) k = shift_rows (sub_bytes s)"
    using "2.prems" by (simp add: xor_bytes_cancel length_shift_rows)
  then show ?case
    using "2.prems"
    by (simp add: inv_shift_rows_shift_rows length_sub_bytes inv_sub_bytes_sub_bytes)
next
  case (3 k v va s)
  let ?t = "mix_columns (shift_rows (sub_bytes s))"
  have l: "length ?t = 16"
    by (simp add: length_mix_columns length_shift_rows)
  then have lx: "length (xor_bytes ?t k) = 16"
    using "3.prems" by (simp add: length_xor_bytes)
  have "inv_rounds (v # va) (rounds (v # va) (xor_bytes ?t k)) = xor_bytes ?t k"
    using "3.IH" "3.prems" lx by simp
  moreover have "xor_bytes (xor_bytes ?t k) k = ?t"
    using "3.prems" l by (simp add: xor_bytes_cancel)
  moreover have "inv_mix_columns ?t = shift_rows (sub_bytes s)"
    by (simp add: inv_mix_columns_mix_columns length_shift_rows)
  ultimately show ?case
    using "3.prems"
    by (simp add: inv_shift_rows_shift_rows length_sub_bytes inv_sub_bytes_sub_bytes)
qed

lemma length_encrypt_block:
  "\<forall>k \<in> set rks. length k = 16 \<Longrightarrow> length s = 16 \<Longrightarrow> length (encrypt_block rks s) = 16"
  by (cases rks) (simp_all add: encrypt_block_def length_rounds length_xor_bytes)

lemma decrypt_block_encrypt_block:
  "\<forall>k \<in> set rks. length k = 16 \<Longrightarrow> length s = 16 \<Longrightarrow>
     decrypt_block rks (encrypt_block rks s) = s"
  by (cases rks)
    (simp_all add: encrypt_block_def decrypt_block_def inv_rounds_rounds length_xor_bytes
      xor_bytes_cancel)

subsection \<open>Round keys\<close>

lemma length_key_word: "4 * i + 4 \<le> length ks \<Longrightarrow> length (key_word ks i) = 4"
  by (simp add: key_word_def)

lemma length_next_key_block: "length prev = 32 \<Longrightarrow> length (next_key_block prev rc) = 32"
  by (simp add: next_key_block_def Let_def length_xor_bytes length_sub_bytes rot_word_def
      key_word_def)

lemma length_key_blocks: "length prev = 32 \<Longrightarrow> length (key_blocks prev rcs) = 32 * length rcs"
  by (induction rcs arbitrary: prev) (simp_all add: Let_def length_next_key_block)

lemma length_expand_key: "length key = 32 \<Longrightarrow> length (expand_key key) = 256"
  by (simp add: expand_key_def length_key_blocks del: key_blocks.simps)

lemma length_round_keys:
  "length key = 32 \<Longrightarrow> \<forall>k \<in> set (round_keys key). length k = 16"
  by (auto simp: round_keys_def length_expand_key)

subsection \<open>Blocks, chaining, padding\<close>

lemma blocks16_Nil: "blocks16 [] = []"
  by (simp add: blocks16.simps)

lemma concat_blocks16: "concat (blocks16 xs) = xs"
proof (induction xs rule: blocks16.induct)
  case (1 xs)
  show ?case
  proof (cases "xs = []")
    case True
    then show ?thesis by (simp add: blocks16_Nil)
  next
    case False
    with "1.IH" have "concat (blocks16 (drop 16 xs)) = drop 16 xs"
      by simp
    with False show ?thesis
      by (simp add: blocks16.simps [of xs])
  qed
qed

lemma blocks16_lengths:
  "length xs mod 16 = 0 \<Longrightarrow> \<forall>b \<in> set (blocks16 xs). length b = 16"
proof (induction xs rule: blocks16.induct)
  case (1 xs)
  show ?case
  proof (cases "xs = []")
    case True
    then show ?thesis by (simp add: blocks16_Nil)
  next
    case False
    with "1.prems" have l: "16 \<le> length xs"
      by (cases "length xs < 16") auto
    then have "(length xs - 16) mod 16 = length xs mod 16"
      by (rule le_mod_geq [symmetric])
    then have d: "length (drop 16 xs) mod 16 = 0"
      using "1.prems" by simp
    have r: "\<forall>b \<in> set (blocks16 (drop 16 xs)). length b = 16"
      by (rule "1.IH" [OF False d])
    have t: "length (take 16 xs) = 16"
      using l by simp
    have "blocks16 xs = take 16 xs # blocks16 (drop 16 xs)"
      using False by (simp add: blocks16.simps [of xs])
    then show ?thesis
      using r t by (simp del: length_take)
  qed
qed

lemma blocks16_concat:
  "\<forall>b \<in> set bs. length b = 16 \<Longrightarrow> blocks16 (concat bs) = bs"
proof (induction bs)
  case Nil
  then show ?case by (simp add: blocks16_Nil)
next
  case (Cons b bs)
  then have "b \<noteq> []" by auto
  then show ?case
    using Cons by (simp add: blocks16.simps [of "b @ concat bs"])
qed

lemma length_concat16:
  "\<forall>c \<in> set cs. length c = 16 \<Longrightarrow> length (concat cs) = 16 * length cs"
  by (induction cs) simp_all

lemma cbc_encrypt_lengths:
  assumes rks: "\<forall>k \<in> set rks. length k = 16"
  shows "\<forall>b \<in> set bs. length b = 16 \<Longrightarrow> length prev = 16 \<Longrightarrow>
     \<forall>c \<in> set (cbc_encrypt rks prev bs). length c = 16"
proof (induction bs arbitrary: prev)
  case Nil
  then show ?case by simp
next
  case (Cons b bs)
  let ?c = "encrypt_block rks (xor_bytes b prev)"
  have b: "length b = 16" and bs: "\<forall>b \<in> set bs. length b = 16"
    using Cons.prems(1) by simp_all
  have lx: "length (xor_bytes b prev) = 16"
    using b Cons.prems(2) by (simp add: length_xor_bytes)
  have lc: "length ?c = 16"
    by (rule length_encrypt_block [OF rks lx])
  have "\<forall>c \<in> set (cbc_encrypt rks ?c bs). length c = 16"
    by (rule Cons.IH [OF bs lc])
  with lc show ?case
    by (simp add: Let_def)
qed

lemma length_cbc_encrypt: "length (cbc_encrypt rks prev bs) = length bs"
  by (induction bs arbitrary: prev) (simp_all add: Let_def)

lemma cbc_decrypt_cbc_encrypt:
  assumes rks: "\<forall>k \<in> set rks. length k = 16"
  shows "\<forall>b \<in> set bs. length b = 16 \<Longrightarrow> length prev = 16 \<Longrightarrow>
     cbc_decrypt rks prev (cbc_encrypt rks prev bs) = bs"
proof (induction bs arbitrary: prev)
  case Nil
  then show ?case by simp
next
  case (Cons b bs)
  let ?c = "encrypt_block rks (xor_bytes b prev)"
  have b: "length b = 16" and bs: "\<forall>b \<in> set bs. length b = 16"
    using Cons.prems(1) by simp_all
  have lx: "length (xor_bytes b prev) = 16"
    using b Cons.prems(2) by (simp add: length_xor_bytes)
  have lc: "length ?c = 16"
    by (rule length_encrypt_block [OF rks lx])
  have d: "decrypt_block rks ?c = xor_bytes b prev"
    by (rule decrypt_block_encrypt_block [OF rks lx])
  have x: "xor_bytes (xor_bytes b prev) prev = b"
    using b Cons.prems(2) by (simp add: xor_bytes_cancel)
  have r: "cbc_decrypt rks ?c (cbc_encrypt rks ?c bs) = bs"
    by (rule Cons.IH [OF bs lc])
  show ?case
    by (simp add: Let_def d x r)
qed

lemma pad_length: "0 < 16 - length (m::byte list) mod 16" "16 - length m mod 16 \<le> 16"
  by simp_all

lemma length_pkcs7_pad: "length (pkcs7_pad m) mod 16 = 0"
proof -
  have "(length m + (16 - length m mod 16)) mod 16 = 0"
    by presburger
  then show ?thesis
    by (simp add: pkcs7_pad_def Let_def)
qed

lemma pkcs7_pad_not_Nil: "pkcs7_pad m \<noteq> []"
  by (simp add: pkcs7_pad_def Let_def)

lemma pkcs7_unpad_append:
  assumes "0 < n" "n \<le> 16" "unat x = n"
  shows "pkcs7_unpad (m @ replicate n x) = Some m"
proof -
  let ?d = "m @ replicate n x"
  have l: "last ?d = x" using assms(1) by simp
  have ne: "?d \<noteq> []" using assms(1) by simp
  have d: "length ?d - n = length m" by simp
  have le: "\<not> length ?d < n" by simp
  have dr: "drop (length m) ?d = replicate n x" by simp
  have tk: "take (length m) ?d = m" by simp
  show ?thesis
    unfolding pkcs7_unpad_def Let_def l assms(3) d dr tk
    using assms(1,2) ne le by simp
qed

lemma pkcs7_unpad_pad: "pkcs7_unpad (pkcs7_pad m) = Some m"
proof -
  let ?n = "16 - length m mod 16"
  have "?n < 2 ^ LENGTH(8)"
    by simp
  then have u: "unat (of_nat ?n :: byte) = ?n"
    by (rule of_nat_inverse [OF refl])
  show ?thesis
    unfolding pkcs7_pad_def Let_def
    by (rule pkcs7_unpad_append [OF _ _ u]) simp_all
qed

lemma aes_256_cbc_roundtrip:
  assumes "length key = 32" "length iv = 16"
  shows "aes_256_cbc_decrypt key iv (aes_256_cbc_encrypt key iv m) = Some m"
    and "aes_256_cbc_encrypt key iv m \<noteq> []"
proof -
  let ?rks = "round_keys key"
  let ?bs = "blocks16 (pkcs7_pad m)"
  let ?cs = "cbc_encrypt ?rks iv ?bs"
  have rks: "\<forall>k \<in> set ?rks. length k = 16"
    using assms(1) by (rule length_round_keys)
  have bs: "\<forall>b \<in> set ?bs. length b = 16"
    by (rule blocks16_lengths) (rule length_pkcs7_pad)
  have cs: "\<forall>c \<in> set ?cs. length c = 16"
    using rks bs assms(2) by (rule cbc_encrypt_lengths)
  have "?bs \<noteq> []"
    using pkcs7_pad_not_Nil [of m] by (simp add: blocks16.simps [of "pkcs7_pad m"])
  then have "?cs \<noteq> []"
    using length_cbc_encrypt [of ?rks iv ?bs] by auto
  then obtain c cs' where c: "?cs = c # cs'"
    by (cases ?cs) auto
  with cs have "length c = 16" by simp
  with c show ne: "aes_256_cbc_encrypt key iv m \<noteq> []"
    by (auto simp: aes_256_cbc_encrypt_def)
  have "length (concat ?cs) = 16 * length ?cs"
    using cs by (rule length_concat16)
  then have m16: "length (aes_256_cbc_encrypt key iv m) mod 16 = 0"
    by (simp add: aes_256_cbc_encrypt_def)
  have "blocks16 (concat ?cs) = ?cs"
    using cs by (rule blocks16_concat)
  moreover have "cbc_decrypt ?rks iv ?cs = ?bs"
    using rks bs assms(2) by (rule cbc_decrypt_cbc_encrypt)
  ultimately show "aes_256_cbc_decrypt key iv (aes_256_cbc_encrypt key iv m) = Some m"
    using ne m16
    by (simp add: aes_256_cbc_decrypt_def aes_256_cbc_encrypt_def concat_blocks16 pkcs7_unpad_pad)
qed

subsection \<open>Encodings round-trip\<close>

lemma hex_value_hex_char_table:
  "list_all (\<lambda>n. hex_value (hex_char n) = Some n) [0..<16]"
  by code_simp

lemma hex_value_hex_char: "n < 16 \<Longrightarrow> hex_value (hex_char n) = Some n"
  using hex_value_hex_char_table by (simp add: list_all_iff)

lemma hex_decode_hex_encode: "hex_decode (hex_encode bs) = bs"
proof (induction bs)
  case Nil
  then show ?case by (simp add: hex_encode_def)
next
  case (Cons b bs)
  have "unat b < 2 ^ LENGTH(8)"
    by (rule unsigned_less)
  then have d: "unat b div 16 < 16" and m: "unat b mod 16 < 16"
    by simp_all
  have "16 * (unat b div 16) + unat b mod 16 = unat b"
    by simp
  then have "(of_nat (16 * (unat b div 16) + unat b mod 16) :: byte) = b"
    by (simp only: of_nat_unat) simp
  with Cons show ?case
    by (simp add: hex_encode_def hex_value_hex_char [OF d] hex_value_hex_char [OF m])
qed

lemma even_length_hex_encode: "even (length (hex_encode bs))"
  by (induction bs) (simp_all add: hex_encode_def)

lemma hex_encode_Nil_iff: "hex_encode bs = [] \<longleftrightarrow> bs = []"
  by (cases bs) (simp_all add: hex_encode_def)

declare utf8_string.simps [simp del]

lemma unat_byte: "x < 256 \<Longrightarrow> unat (of_nat x :: byte) = x"
  by (simp add: unat_of_nat)


lemma decode_1:
  assumes "c < 0x80"
  shows "utf8_string (utf8_of_code_point c @ bs) = code_units c @ utf8_string bs"
proof -
  have u: "unat (of_nat c :: byte) = c"
    by (rule unat_byte) (use assms in simp)
  have e: "utf8_of_code_point c = [of_nat c]"
    using assms by (simp add: utf8_of_code_point_def)
  have k: "code_units c = [of_nat c]"
    using assms by (simp add: code_units_def)
  have "utf8_string (of_nat c # bs) = of_nat c # utf8_string bs"
    by (subst utf8_string.simps(2)) (simp only: u assms if_True)
  then show ?thesis
    unfolding e k by simp
qed

lemma decode_2:
  assumes "0x80 \<le> c" "c < 0x800"
  shows "utf8_string (utf8_of_code_point c @ bs) = code_units c @ utf8_string bs"
proof -
  let ?b0 = "0xC0 + c div 64" and ?b1 = "0x80 + c mod 64"
  have u0: "unat (of_nat ?b0 :: byte) = ?b0"
    by (rule unat_byte) (use assms in simp)
  have u1: "unat (of_nat ?b1 :: byte) = ?b1"
    by (rule unat_byte) simp
  have r: "\<not> ?b0 < 0x80" "0xC2 \<le> ?b0" "?b0 \<le> 0xDF"
    using assms by simp_all
  have in1: "between (of_nat ?b1) 0x80 0xBF"
    unfolding between_def u1 by simp
  have v: "(?b0 - 0xC0) * 64 + (?b1 - 0x80) = c"
    by simp
  have e: "utf8_of_code_point c = [of_nat ?b0, of_nat ?b1]"
    using assms by (simp add: utf8_of_code_point_def)
  have "utf8_string (of_nat ?b0 # of_nat ?b1 # bs) = code_units c @ utf8_string bs"
    by (subst utf8_string.simps(2))
      (simp only: u0 u1 r in1 v list.case if_True if_False simp_thms)
  then show ?thesis
    unfolding e by simp
qed

lemma split_64:
  fixes d :: nat
  shows "d div 64 * 64 + d mod 64 = d"
  by simp

lemma decode_3:
  assumes "0x800 \<le> c" "c < 0x10000" "\<not> (0xD800 \<le> c \<and> c \<le> 0xDFFF)"
  shows "utf8_string (utf8_of_code_point c @ bs) = code_units c @ utf8_string bs"
proof -
  define d where "d = c div 64"
  have q: "c div 4096 = d div 64"
    by (simp add: d_def div_mult2_eq [symmetric])
  have c: "d * 64 + c mod 64 = c"
    by (simp add: d_def)
  have m: "c mod 64 < 64"
    by simp
  have dd: "d div 64 * 64 + d mod 64 = d"
    by (rule split_64)
  have dm: "d mod 64 < 64"
    by simp
  have d: "32 \<le> d" "d < 1024" "\<not> (864 \<le> d \<and> d < 896)"
    using assms c m by linarith+
  let ?b0 = "0xE0 + d div 64" and ?b1 = "0x80 + d mod 64" and ?b2 = "0x80 + c mod 64"
  have dq: "d div 64 < 16"
    using d(2) by simp
  have u0: "unat (of_nat ?b0 :: byte) = ?b0"
    by (rule unat_byte) (use dq in simp)
  have u1: "unat (of_nat ?b1 :: byte) = ?b1"
    by (rule unat_byte) simp
  have u2: "unat (of_nat ?b2 :: byte) = ?b2"
    by (rule unat_byte) simp
  have r: "\<not> ?b0 < 0x80" "\<not> (0xC2 \<le> ?b0 \<and> ?b0 \<le> 0xDF)" "0xE0 \<le> ?b0" "?b0 \<le> 0xEF"
    using dq by simp_all
  have lo: "?b0 = 0xE0 \<Longrightarrow> 0xA0 \<le> ?b1"
    using d(1) dd by linarith
  have hi: "?b0 = 0xED \<Longrightarrow> ?b1 \<le> 0x9F"
    using d(3) dd dm by linarith
  have b1: "0x80 \<le> ?b1" "?b1 \<le> 0xBF"
    using dm by simp_all
  have in1: "between (of_nat ?b1) (if ?b0 = 0xE0 then 0xA0 else 0x80) (if ?b0 = 0xED then 0x9F else 0xBF)"
    unfolding between_def u1 using lo hi b1 by (simp only: split: if_split) blast
  have in2: "between (of_nat ?b2) 0x80 0xBF"
    unfolding between_def u2 by simp
  have "d div 64 * 4096 + d mod 64 * 64 + c mod 64 = c"
    using c dd by linarith
  then have v: "(?b0 - 0xE0) * 4096 + (?b1 - 0x80) * 64 + (?b2 - 0x80) = c"
    by simp
  have e: "utf8_of_code_point c = [of_nat ?b0, of_nat ?b1, of_nat ?b2]"
    using assms by (simp add: utf8_of_code_point_def q d_def)
  have "utf8_string (of_nat ?b0 # of_nat ?b1 # of_nat ?b2 # bs) = code_units c @ utf8_string bs"
    by (subst utf8_string.simps(2)) (simp only: u0 u1 u2 r in1 in2 v list.case if_True if_False simp_thms)
  then show ?thesis
    unfolding e by simp
qed

lemma decode_4:
  assumes "0x10000 \<le> c" "c < 0x110000"
  shows "utf8_string (utf8_of_code_point c @ bs) = code_units c @ utf8_string bs"
proof -
  define d where "d = c div 64"
  define f where "f = d div 64"
  have q: "c div 4096 = f" "c div 262144 = f div 64"
    by (simp_all add: d_def f_def div_mult2_eq [symmetric])
  have c: "d * 64 + c mod 64 = c"
    by (simp add: d_def)
  have m: "c mod 64 < 64"
    by simp
  have dd: "f * 64 + d mod 64 = d"
    unfolding f_def by (rule split_64)
  have dm: "d mod 64 < 64"
    by simp
  have ff: "f div 64 * 64 + f mod 64 = f"
    by (rule split_64)
  have fm: "f mod 64 < 64"
    by simp
  have f: "16 \<le> f" "f < 272"
    using assms c m dd dm by linarith+
  let ?b0 = "0xF0 + f div 64" and ?b1 = "0x80 + f mod 64"
  let ?b2 = "0x80 + d mod 64" and ?b3 = "0x80 + c mod 64"
  have fq: "f div 64 < 5"
    using f(2) by simp
  have u0: "unat (of_nat ?b0 :: byte) = ?b0"
    by (rule unat_byte) (use fq in simp)
  have u1: "unat (of_nat ?b1 :: byte) = ?b1"
    by (rule unat_byte) simp
  have u2: "unat (of_nat ?b2 :: byte) = ?b2"
    by (rule unat_byte) simp
  have u3: "unat (of_nat ?b3 :: byte) = ?b3"
    by (rule unat_byte) simp
  have r: "\<not> ?b0 < 0x80" "\<not> (0xC2 \<le> ?b0 \<and> ?b0 \<le> 0xDF)" "\<not> (0xE0 \<le> ?b0 \<and> ?b0 \<le> 0xEF)"
    "0xF0 \<le> ?b0" "?b0 \<le> 0xF4"
    using fq by simp_all
  have lo: "?b0 = 0xF0 \<Longrightarrow> 0x90 \<le> ?b1"
    using f(1) ff by linarith
  have hi: "?b0 = 0xF4 \<Longrightarrow> ?b1 \<le> 0x8F"
    using f(2) ff by linarith
  have b1: "0x80 \<le> ?b1" "?b1 \<le> 0xBF"
    using fm by simp_all
  have in1: "between (of_nat ?b1) (if ?b0 = 0xF0 then 0x90 else 0x80) (if ?b0 = 0xF4 then 0x8F else 0xBF)"
    unfolding between_def u1 using lo hi b1 by (simp only: split: if_split) blast
  have in2: "between (of_nat ?b2) 0x80 0xBF"
    unfolding between_def u2 by simp
  have in3: "between (of_nat ?b3) 0x80 0xBF"
    unfolding between_def u3 by simp
  have "f div 64 * 262144 + f mod 64 * 4096 + d mod 64 * 64 + c mod 64 = c"
    using c dd ff by linarith
  then have v: "(?b0 - 0xF0) * 262144 + (?b1 - 0x80) * 4096 + (?b2 - 0x80) * 64 + (?b3 - 0x80) = c"
    by simp
  have e: "utf8_of_code_point c = [of_nat ?b0, of_nat ?b1, of_nat ?b2, of_nat ?b3]"
    using assms by (simp add: utf8_of_code_point_def q) (simp add: d_def)
  have "utf8_string (of_nat ?b0 # of_nat ?b1 # of_nat ?b2 # of_nat ?b3 # bs)
          = code_units c @ utf8_string bs"
    by (subst utf8_string.simps(2))
      (simp only: u0 u1 u2 u3 r in1 in2 in3 v list.case if_True if_False simp_thms)
  then show ?thesis
    unfolding e by simp
qed

lemma utf8_string_code_point:
  assumes "c < 0x110000" "\<not> (0xD800 \<le> c \<and> c \<le> 0xDFFF)"
  shows "utf8_string (utf8_of_code_point c @ bs) = code_units c @ utf8_string bs"
proof -
  consider "c < 0x80" | "0x80 \<le> c \<and> c < 0x800" | "0x800 \<le> c \<and> c < 0x10000" | "0x10000 \<le> c"
    by linarith
  then show ?thesis
  proof cases
    case 1
    then show ?thesis by (rule decode_1)
  next
    case 2
    then show ?thesis by (simp add: decode_2)
  next
    case 3
    then show ?thesis using assms(2) by (simp add: decode_3)
  next
    case 4
    then show ?thesis using assms(1) by (simp add: decode_4)
  qed
qed

lemma unat_unit_bound: "unat (u :: 16 word) < 65536"
  using unsigned_less [of u, where ?'a = nat] by simp

lemma single_unit:
  assumes "\<not> high_surrogate u" "\<not> low_surrogate u"
  shows "utf8_string (utf8_of_code_point (unat u) @ bs) = u # utf8_string bs"
proof -
  have b: "unat u < 65536"
    by (rule unat_unit_bound)
  have "unat u < 0x110000" "\<not> (0xD800 \<le> unat u \<and> unat u \<le> 0xDFFF)"
    using assms b by (auto simp: high_surrogate_def low_surrogate_def)
  then have "utf8_string (utf8_of_code_point (unat u) @ bs) = code_units (unat u) @ utf8_string bs"
    by (rule utf8_string_code_point)
  moreover have "code_units (unat u) = [u]"
    using b by (simp add: code_units_def)
  ultimately show ?thesis
    by simp
qed

lemma replacement_character:
  "utf8_string (utf8_of_code_point 0xFFFD @ bs) = 0xFFFD # utf8_string bs"
proof -
  have "utf8_string (utf8_of_code_point 0xFFFD @ bs) = code_units 0xFFFD @ utf8_string bs"
    by (rule utf8_string_code_point) simp_all
  then show ?thesis
    by (simp add: code_units_def)
qed

lemma surrogate_pair:
  assumes "high_surrogate u" "low_surrogate v"
  shows "utf8_string (utf8_of_code_point (0x10000 + (unat u - 0xD800) * 1024 + (unat v - 0xDC00)) @ bs)
           = u # v # utf8_string bs"
proof -
  define h where "h = unat u - 0xD800"
  define l where "l = unat v - 0xDC00"
  have h: "h < 1024" "unat u = 0xD800 + h"
    using assms(1) unfolding h_def high_surrogate_def by linarith+
  have l: "l < 1024" "unat v = 0xDC00 + l"
    using assms(2) unfolding l_def low_surrogate_def by linarith+
  let ?c = "0x10000 + h * 1024 + l"
  have "0x10000 \<le> ?c" "?c < 0x110000"
    using h(1) l(1) by simp_all
  then have "utf8_string (utf8_of_code_point ?c @ bs) = code_units ?c @ utf8_string bs"
    by (simp add: decode_4)
  moreover have "code_units ?c = [of_nat (0xD800 + h), of_nat (0xDC00 + l)]"
    using h(1) l(1) by (simp add: code_units_def)
  moreover have "(of_nat (0xD800 + h) :: 16 word) = u" "(of_nat (0xDC00 + l) :: 16 word) = v"
    using h(2) l(2) by (metis of_nat_unat ucast_id)+
  ultimately show ?thesis
    by (simp add: h_def l_def)
qed

lemma utf8_string_utf8_bytes_append:
  "utf8_string (utf8_bytes s @ bs) = toWellFormed s @ utf8_string bs"
proof (induction s rule: utf8_bytes.induct)
  case 1
  then show ?case by simp
next
  case (2 u)
  then show ?case
    by (simp add: replacement_character single_unit)
next
  case (3 u v rest)
  show ?case
  proof (cases "high_surrogate u \<and> low_surrogate v")
    case True
    then show ?thesis
      using 3(1) by (simp add: surrogate_pair)
  next
    case False
    have ih: "utf8_string (utf8_bytes (v # rest) @ bs) = toWellFormed (v # rest) @ utf8_string bs"
      using 3(2) False by blast
    show ?thesis
    proof (cases "high_surrogate u \<or> low_surrogate u")
      case True
      have "utf8_bytes (u # v # rest) = utf8_of_code_point 0xFFFD @ utf8_bytes (v # rest)"
        using False True by auto
      moreover have "toWellFormed (u # v # rest) = 0xFFFD # toWellFormed (v # rest)"
        using False True by auto
      ultimately show ?thesis
        using ih by (simp only: append_assoc replacement_character append_Cons)
    next
      case lone: False
      have "utf8_bytes (u # v # rest) = utf8_of_code_point (unat u) @ utf8_bytes (v # rest)"
        using False lone by auto
      moreover have "toWellFormed (u # v # rest) = u # toWellFormed (v # rest)"
        using False lone by auto
      moreover have n: "\<not> high_surrogate u" "\<not> low_surrogate u"
        using lone by simp_all
      ultimately show ?thesis
        using ih by (simp only: append_assoc single_unit [OF n] append_Cons)
    qed
  qed
qed

lemma utf8_string_utf8_bytes: "utf8_string (utf8_bytes s) = toWellFormed s"
  using utf8_string_utf8_bytes_append [of s "[]"] by (simp add: utf8_string.simps(1))

lemma not_surrogate_replacement:
  "\<not> high_surrogate 0xFFFD" "\<not> low_surrogate 0xFFFD"
  by (simp_all add: high_surrogate_def low_surrogate_def)

lemma replaced_iff:
  "(if high_surrogate u \<or> low_surrogate u then 0xFFFD else u) = u
     \<longleftrightarrow> \<not> high_surrogate u \<and> \<not> low_surrogate u"
  using not_surrogate_replacement by auto

lemma toWellFormed_fixed: "toWellFormed s = s \<longleftrightarrow> isWellFormed s"
proof (induction s rule: toWellFormed.induct)
  case 1
  then show ?case by simp
next
  case (2 u)
  then show ?case
    using replaced_iff [of u] by simp
next
  case (3 u v rest)
  show ?case
  proof (cases "high_surrogate u \<and> low_surrogate v")
    case True
    then show ?thesis
      using 3(1) by simp
  next
    case False
    have "toWellFormed (u # v # rest)
            = (if high_surrogate u \<or> low_surrogate u then 0xFFFD else u) # toWellFormed (v # rest)"
      using False by auto
    moreover have "isWellFormed (u # v # rest)
            = (\<not> high_surrogate u \<and> \<not> low_surrogate u \<and> isWellFormed (v # rest))"
      using False by auto
    ultimately show ?thesis
      using 3(2) False replaced_iff [of u] by (simp only: list.inject) blast
  qed
qed

subsection \<open>Encrypting and decrypting a key\<close>

lemma getEncryptionKey_valid:
  assumes "k \<noteq> []" "length (hex_decode k) = 32"
  shows "getEncryptionKey (Some k) = Inr (hex_decode k)"
  using assms by (simp add: getEncryptionKey_def Let_def)

lemma encryptApiKey_result:
  assumes "k \<noteq> []" and "length (hex_decode k) = 32"
    and "length random_iv = 16" and "p \<noteq> []"
  shows "encryptApiKey (Some k) random_iv (Some p) =
           (Inr \<lparr> encrypted = cipher_update_final (hex_decode k) random_iv p,
                   iv_hex = hex_encode random_iv \<rparr>, [])"
proof -
  have key: "getEncryptionKey (Some k) = Inr (hex_decode k)"
    using assms(1,2) by (rule getEncryptionKey_valid)
  have ok: "createCipheriv (hex_decode k) random_iv = Inr ()"
    using assms(2,3) by (simp add: createCipheriv_def)
  show ?thesis
    using assms(4) by (simp add: encryptApiKey_def key ok bind_err_def)
qed

lemma decryptApiKey_of_encrypted:
  assumes "k \<noteq> []" and "length (hex_decode k) = 32" and "length random_iv = 16"
  shows "decryptApiKey (Some k) (Some (cipher_update_final (hex_decode k) random_iv p))
           (Some (hex_encode random_iv)) = (Inr (toWellFormed p), [])"
proof -
  let ?key = "hex_decode k"
  let ?c = "aes_256_cbc_encrypt ?key random_iv (utf8_bytes p)"
  have key: "getEncryptionKey (Some k) = Inr ?key"
    using assms(1,2) by (rule getEncryptionKey_valid)
  have ok: "createCipheriv ?key random_iv = Inr ()"
    using assms(2,3) by (simp add: createCipheriv_def)
  have c: "?c \<noteq> []"
    using assms(2,3) by (rule aes_256_cbc_roundtrip(2))
  have iv: "random_iv \<noteq> []"
    using assms(3) by auto
  have t: "truthy (Some (hex_encode ?c))" "truthy (Some (hex_encode random_iv))"
    using c iv by (simp_all add: hex_encode_Nil_iff)
  have d: "aes_256_cbc_decrypt ?key random_iv ?c = Some (utf8_bytes p)"
    using assms(2,3) by (rule aes_256_cbc_roundtrip(1))
  have whole: "length ?c mod 16 = 0"
  proof (rule ccontr)
    assume "length ?c mod 16 \<noteq> 0"
    then have "aes_256_cbc_decrypt ?key random_iv ?c = None"
      by (simp add: aes_256_cbc_decrypt_def)
    with d show False by simp
  qed
  have fin: "decipher_update_final ?key random_iv (hex_encode ?c) = Inr (toWellFormed p)"
    unfolding decipher_update_final_def hex_decode_hex_encode Let_def
    using c whole by (simp add: even_length_hex_encode d utf8_string_utf8_bytes)
  show ?thesis
    unfolding decryptApiKey_def cipher_update_final_def
    using t by (simp add: key ok bind_err_def createDecipheriv_def hex_decode_hex_encode fin)
qed

lemma sample_key_valid:
  "length (hex_decode ''000102030405060708090a0b0c0d0e0f101112131415161718191a1b1c1d1e1f'') = 32"
  by code_simp

lemma sample_env_valid:
  "sample_env = Some ''000102030405060708090a0b0c0d0e0f101112131415161718191a1b1c1d1e1f''"
  "length sample_iv = 16"
  by (simp_all add: sample_env_def sample_iv_def)

text \<open>
  C9 (as stated): for every non-empty string \<open>p\<close>, decrypting what
  \<^verbatim>\<open>encryptApiKey(p)\<close> returned gives \<open>p\<close>. It does not for a string with a lone
  surrogate: the string of the one code unit D800 is encrypted as the three bytes of
  U+FFFD, and what is decrypted is the string of the one code unit FFFD.
\<close>

theorem lone_surrogate_comes_back_replaced:
  "encryptApiKey sample_env sample_iv (Some [0xD800]) =
     (Inr \<lparr> encrypted =
              hex_encode (aes_256_cbc_encrypt
                (hex_decode ''000102030405060708090a0b0c0d0e0f101112131415161718191a1b1c1d1e1f'')
                sample_iv [0xEF, 0xBF, 0xBD]),
            iv_hex = hex_encode sample_iv \<rparr>, [])
   \<and> decryptApiKey sample_env
        (Some (hex_encode (aes_256_cbc_encrypt
                (hex_decode ''000102030405060708090a0b0c0d0e0f101112131415161718191a1b1c1d1e1f'')
                sample_iv [0xEF, 0xBF, 0xBD])))
        (Some (hex_encode sample_iv))
      = (Inr [0xFFFD], [])"
proof -
  let ?k = "''000102030405060708090a0b0c0d0e0f101112131415161718191a1b1c1d1e1f''"
  have b: "utf8_bytes [0xD800] = [0xEF, 0xBF, 0xBD]"
    by (simp add: high_surrogate_def utf8_of_code_point_def)
  have c: "cipher_update_final (hex_decode ?k) sample_iv [0xD800]
             = hex_encode (aes_256_cbc_encrypt (hex_decode ?k) sample_iv [0xEF, 0xBF, 0xBD])"
    by (simp only: cipher_update_final_def b)
  have w: "toWellFormed [0xD800] = [0xFFFD]"
    by (simp add: high_surrogate_def)
  have e: "encryptApiKey (Some ?k) sample_iv (Some [0xD800]) =
           (Inr \<lparr> encrypted = cipher_update_final (hex_decode ?k) sample_iv [0xD800],
                   iv_hex = hex_encode sample_iv \<rparr>, [])"
    by (rule encryptApiKey_result [OF _ sample_key_valid sample_env_valid(2)]) simp_all
  have d: "decryptApiKey (Some ?k) (Some (cipher_update_final (hex_decode ?k) sample_iv [0xD800]))
           (Some (hex_encode sample_iv)) = (Inr (toWellFormed [0xD800]), [])"
    by (rule decryptApiKey_of_encrypted [OF _ sample_key_valid sample_env_valid(2)]) simp
  show ?thesis
    using e d unfolding c w sample_env_valid(1) by (rule conjI)
qed

text \<open>
  C9 (amended): with a valid 32-byte \<^verbatim>\<open>ENCRYPTION_KEY\<close> configured, for every non-empty
  plaintext \<open>p\<close> and every 16-byte initialization vector drawn by \<^verbatim>\<open>randomBytes\<close>,
  \<^verbatim>\<open>encryptApiKey(p)\<close> returns \<^verbatim>\<open>{encrypted, iv}\<close> and
  \<^verbatim>\<open>decryptApiKey(encrypted, iv)\<close> returns \<^verbatim>\<open>p.toWellFormed()\<close>, which is \<open>p\<close> with
  every lone surrogate replaced by U+FFFD: it returns \<open>p\<close> exactly when \<open>p\<close> has no
  lone surrogate.
\<close>

theorem encrypt_decrypt_roundtrip:
  assumes "k \<noteq> []" and "length (hex_decode k) = 32"
    and "length random_iv = 16" and "p \<noteq> []"
  shows "\<exists>r. encryptApiKey (Some k) random_iv (Some p) = (Inr r, [])
           \<and> decryptApiKey (Some k) (Some (encrypted r)) (Some (iv_hex r))
               = (Inr (toWellFormed p), [])
           \<and> (decryptApiKey (Some k) (Some (encrypted r)) (Some (iv_hex r)) = (Inr p, [])
                \<longleftrightarrow> isWellFormed p)"
  using encryptApiKey_result [OF assms] decryptApiKey_of_encrypted [OF assms(1,2,3), of p]
  by (simp add: toWellFormed_fixed)

lemma isWellFormed_sample: "isWellFormed (js_text ''sk-or-v1-abc'')"
  by (simp add: js_text_def high_surrogate_def low_surrogate_def)

theorem encrypt_decrypt_roundtrip_witness:
  "isWellFormed (js_text ''sk-or-v1-abc'')
   \<and> (\<exists>r. encryptApiKey sample_env sample_iv (Some (js_text ''sk-or-v1-abc'')) = (Inr r, [])
        \<and> decryptApiKey sample_env (Some (encrypted r)) (Some (iv_hex r))
            = (Inr (js_text ''sk-or-v1-abc''), []))
   \<and> \<not> isWellFormed [0x41, 0xDC00]
   \<and> (\<exists>r. encryptApiKey sample_env sample_iv (Some [0x41, 0xDC00]) = (Inr r, [])
        \<and> decryptApiKey sample_env (Some (encrypted r)) (Some (iv_hex r))
            = (Inr [0x41, 0xFFFD], []))"
proof -
  have n: "js_text ''sk-or-v1-abc'' \<noteq> []" "[0x41, 0xDC00] \<noteq> ([] :: js_string)"
    by (simp_all add: js_text_def)
  have l: "\<not> isWellFormed [0x41, 0xDC00]" "toWellFormed [0x41, 0xDC00] = [0x41, 0xFFFD]"
    by (simp_all add: high_surrogate_def low_surrogate_def)
  have w: "toWellFormed (js_text ''sk-or-v1-abc'') = js_text ''sk-or-v1-abc''"
    using isWellFormed_sample by (simp only: toWellFormed_fixed)
  have one: "\<exists>r. encryptApiKey sample_env sample_iv (Some (js_text ''sk-or-v1-abc'')) = (Inr r, [])
        \<and> decryptApiKey sample_env (Some (encrypted r)) (Some (iv_hex r))
            = (Inr (js_text ''sk-or-v1-abc''), [])"
    unfolding sample_env_valid(1)
    using encrypt_decrypt_roundtrip [OF _ sample_key_valid sample_env_valid(2) n(1)]
    by (simp only: w) blast
  have two: "\<exists>r. encryptApiKey sample_env sample_iv (Some [0x41, 0xDC00]) = (Inr r, [])
        \<and> decryptApiKey sample_env (Some (encrypted r)) (Some (iv_hex r))
            = (Inr [0x41, 0xFFFD], [])"
    unfolding sample_env_valid(1)
    using encrypt_decrypt_roundtrip [OF _ sample_key_valid sample_env_valid(2) n(2)]
    by (simp only: l(2)) blast
  show ?thesis
    using isWellFormed_sample one l(1) two by blast
qed

section \<open>Calendar providers\<close>

text \<open>
  The calendar API clients are the providers' collaborators: each call either throws
  (\<open>Inl\<close>) or returns what the API answered. A provider operation makes one call
  inside its try block; its result is what the caller gets and what was logged.
\<close>

subsection \<open>Google\<close>















subsection \<open>Outlook\<close>


record calendar =
  c_id :: "string option"
  c_summary :: "string option"
  backgroundColor :: js_member
  accessRole :: string
  primary :: bool













definition getProviderName_google :: string where
  "getProviderName_google = ''google''"

definition getProviderName_outlook :: string where
  "getProviderName_outlook = ''outlook''"

section \<open>The chat endpoint\<close>

subsection \<open>Values the endpoint handles\<close>

text \<open>
  A parsed JSON value. \<open>JObj\<close> lists an object's own properties, each key once, as
  \<^verbatim>\<open>JSON.parse\<close> builds it. As the content of a tool message a value stands for its
  \<^verbatim>\<open>JSON.stringify\<close> text.
\<close>

datatype json = JNull | JBool bool | JNum int | JStr string | JArr "json list"
  | JObj "(string \<times> json) list"

record tool_call =
  tc_id :: string
  function_name :: string
  function_arguments :: string

record assistant_message =
  message_content :: "string option"
  tool_calls :: "tool_call list option"

text \<open>
  The system prompt is a fixed text around four computed parts: the lines of the
  current events, the user's time zone, the current time and the day of the week.
\<close>

record system_prompt =
  prompt_events :: string
  prompt_timeZone :: string
  prompt_now :: string
  prompt_weekday :: string

datatype message =
    SystemMessage system_prompt
  | ClientMessage json
  | AssistantMessage assistant_message
  | ToolMessage string "json option"

text \<open>
  A request to the chat-completions endpoint: the client is built with the user's key;
  the first request of a turn carries the tool declarations, the second does not.
\<close>

record chat_completion_request =
  api_key :: js_string
  model :: string
  messages :: "message list"
  tools :: bool

text \<open>The calendar calls of the dispatch loop; the calendar is always \<^verbatim>\<open>'primary'\<close>.\<close>

datatype calendar_request =
    EventsInsert json
  | EventsPatch "json option" json
  | EventsDelete json

subsection \<open>The services outside the process\<close>

text \<open>
  The LLM endpoint and the calendar API answer a request in a state \<open>'w\<close> of the
  outside world and may change it; \<^verbatim>\<open>JSON.parse\<close>, the clock and the time-zone
  database are functions of the runtime. \<open>Inl\<close> is a thrown error.
\<close>

record 'w services =
  chat_completions_create :: "chat_completion_request \<Rightarrow> 'w \<Rightarrow> (js_error + assistant_message list) \<times> 'w"
  calendar_events :: "calendar_request \<Rightarrow> 'w \<Rightarrow> (js_error + json) \<times> 'w"
  JSON_parse :: "string \<Rightarrow> js_error + json"
  toISOString_now :: string
  weekday_in :: "string \<Rightarrow> js_error + string"

text \<open>What a request has done so far: the requests it sent, in order, and its console.\<close>

record 'w run =
  world :: 'w
  llm_requests :: "chat_completion_request list"
  calendar_requests :: "calendar_request list"
  console :: "log_entry list"

definition call_llm ::
  "'w services \<Rightarrow> chat_completion_request \<Rightarrow> 'w run \<Rightarrow> (js_error + assistant_message list) \<times> 'w run" where
  "call_llm S request r =
    (case chat_completions_create S request (world r) of
       (result, w) \<Rightarrow> (result, r \<lparr> world := w, llm_requests := llm_requests r @ [request] \<rparr>))"

definition call_calendar ::
  "'w services \<Rightarrow> calendar_request \<Rightarrow> 'w run \<Rightarrow> (js_error + json) \<times> 'w run" where
  "call_calendar S request r =
    (case calendar_events S request (world r) of
       (result, w) \<Rightarrow> (result, r \<lparr> world := w, calendar_requests := calendar_requests r @ [request] \<rparr>))"

subsection \<open>Reading the tool arguments\<close>

text \<open>
  \<^verbatim>\<open>value.key\<close> for one of the names the loop reads (\<^verbatim>\<open>events\<close>, \<^verbatim>\<open>updates\<close>,
  \<^verbatim>\<open>eventIds\<close>): reading a property of \<^verbatim>\<open>null\<close> throws, an object gives its own
  property, any other value gives \<^verbatim>\<open>undefined\<close>.
\<close>

definition get_property :: "json \<Rightarrow> string \<Rightarrow> js_error + json option" where
  "get_property v key =
    (case v of
       JNull \<Rightarrow> Inl (Error (''Cannot read properties of null (reading '' @ quoted key @ '')''))
     | JObj properties \<Rightarrow> Inr (map_of properties key)
     | _ \<Rightarrow> Inr None)"

text \<open>
  \<^verbatim>\<open>for (const x of value)\<close>: an array gives its elements and a string its characters;
  nothing else the parser returns can be iterated.
\<close>

definition iterate :: "string \<Rightarrow> json option \<Rightarrow> js_error + json list" where
  "iterate expr v =
    (case v of
       Some (JArr xs) \<Rightarrow> Inr xs
     | Some (JStr s) \<Rightarrow> Inr (map (\<lambda>c. JStr [c]) s)
     | _ \<Rightarrow> Inl (Error (expr @ '' is not iterable'')))"

definition indexed :: "json list \<Rightarrow> (string \<times> json) list" where
  "indexed xs = zip (map decimal [0..<length xs]) xs"

text \<open>
  \<^verbatim>\<open>const { eventId, ...eventData } = update\<close>: \<^verbatim>\<open>null\<close> cannot be destructured; an
  object gives its \<^verbatim>\<open>eventId\<close> and the rest of its properties; an array or a string
  has no \<^verbatim>\<open>eventId\<close> and its elements as the rest; a number or a boolean has neither.
\<close>

definition destructure_update :: "json \<Rightarrow> js_error + (json option \<times> json)" where
  "destructure_update update =
    (case update of
       JNull \<Rightarrow> Inl (Error ''Cannot destructure property 'eventId' of 'update' as it is null.'')
     | JObj properties \<Rightarrow>
         Inr (map_of properties ''eventId'', JObj (filter (\<lambda>(k, v). k \<noteq> ''eventId'') properties))
     | JArr xs \<Rightarrow> Inr (None, JObj (indexed xs))
     | JStr s \<Rightarrow> Inr (None, JObj (indexed (map (\<lambda>c. JStr [c]) s)))
     | _ \<Rightarrow> Inr (None, JObj []))"

subsection \<open>Executing one tool call\<close>

text \<open>
  The three loops over the arguments. Each stops at the first call that throws; the
  count is the number of calls that were answered.
\<close>

fun insert_each :: "'w services \<Rightarrow> json list \<Rightarrow> nat \<Rightarrow> 'w run \<Rightarrow> (js_error + nat) \<times> 'w run" where
  "insert_each S [] n r = (Inr n, r)"
| "insert_each S (event # rest) n r =
     (case call_calendar S (EventsInsert event) r of
        (Inl error, r') \<Rightarrow> (Inl error, r')
      | (Inr answered, r') \<Rightarrow> insert_each S rest (Suc n) r')"

fun patch_each :: "'w services \<Rightarrow> json list \<Rightarrow> nat \<Rightarrow> 'w run \<Rightarrow> (js_error + nat) \<times> 'w run" where
  "patch_each S [] n r = (Inr n, r)"
| "patch_each S (update # rest) n r =
     (case destructure_update update of
        Inl error \<Rightarrow> (Inl error, r)
      | Inr (eventId, eventData) \<Rightarrow>
          (case call_calendar S (EventsPatch eventId eventData) r of
             (Inl error, r') \<Rightarrow> (Inl error, r')
           | (Inr answered, r') \<Rightarrow> patch_each S rest (Suc n) r'))"

fun delete_each :: "'w services \<Rightarrow> json list \<Rightarrow> 'w run \<Rightarrow> (js_error + unit) \<times> 'w run" where
  "delete_each S [] r = (Inr (), r)"
| "delete_each S (eventId # rest) r =
     (case call_calendar S (EventsDelete eventId) r of
        (Inl error, r') \<Rightarrow> (Inl error, r')
      | (Inr answered, r') \<Rightarrow> delete_each S rest r')"

definition success_result :: "string \<Rightarrow> nat \<Rightarrow> json" where
  "success_result counted n = JObj [(''success'', JBool True), (counted, JNum (int n))]"

definition failure_result :: "js_error \<Rightarrow> json" where
  "failure_result error = JObj [(''success'', JBool False), (''error'', JStr (message error))]"

text \<open>
  The body of the try block: \<open>Inr (Some result)\<close> when a branch set \<^verbatim>\<open>toolResult\<close>,
  \<open>Inr None\<close> when no branch matched the name and it stayed \<^verbatim>\<open>undefined\<close>, \<open>Inl\<close>
  when something inside threw.
\<close>

definition execute_tool ::
  "'w services \<Rightarrow> string \<Rightarrow> json \<Rightarrow> 'w run \<Rightarrow> (js_error + json option) \<times> 'w run" where
  "execute_tool S functionName args r =
    (if functionName = ''create_calendar_event'' then
       (case bind_err (get_property args ''events'') (iterate ''args.events'') of
          Inl error \<Rightarrow> (Inl error, r)
        | Inr events \<Rightarrow>
            (case insert_each S events 0 r of
               (Inl error, r') \<Rightarrow> (Inl error, r')
             | (Inr created, r') \<Rightarrow> (Inr (Some (success_result ''created'' created)), r')))
     else if functionName = ''update_calendar_event'' then
       (case bind_err (get_property args ''updates'') (iterate ''args.updates'') of
          Inl error \<Rightarrow> (Inl error, r)
        | Inr updates \<Rightarrow>
            (case patch_each S updates 0 r of
               (Inl error, r') \<Rightarrow> (Inl error, r')
             | (Inr updated, r') \<Rightarrow> (Inr (Some (success_result ''updated'' updated)), r')))
     else if functionName = ''delete_calendar_events'' then
       (case bind_err (get_property args ''eventIds'') (iterate ''args.eventIds'') of
          Inl error \<Rightarrow> (Inl error, r)
        | Inr eventIds \<Rightarrow>
            (case delete_each S eventIds r of
               (Inl error, r') \<Rightarrow> (Inl error, r')
             | (Inr u, r') \<Rightarrow> (Inr (Some (success_result ''deleted'' (length eventIds))), r')))
     else (Inr None, r))"

subsection \<open>The dispatch loop\<close>

text \<open>
  \<^verbatim>\<open>for (const toolCall of assistantMessage.tool_calls)\<close>, with the tool messages
  pushed so far. \<^verbatim>\<open>JSON.parse\<close> stands before the try block: when it throws, the
  loop is left. What the try block throws becomes the tool result; the push of the tool
  message follows the try/catch for every tool call.
\<close>

fun run_tool_calls ::
  "'w services \<Rightarrow> tool_call list \<Rightarrow> message list \<Rightarrow> 'w run \<Rightarrow> (js_error + message list) \<times> 'w run" where
  "run_tool_calls S [] toolMessages r = (Inr toolMessages, r)"
| "run_tool_calls S (toolCall # rest) toolMessages r =
     (case JSON_parse S (function_arguments toolCall) of
        Inl error \<Rightarrow> (Inl error, r)
      | Inr args \<Rightarrow>
          (case execute_tool S (function_name toolCall) args r of
             (Inr toolResult, r') \<Rightarrow>
               run_tool_calls S rest (toolMessages @ [ToolMessage (tc_id toolCall) toolResult]) r'
           | (Inl error, r') \<Rightarrow>
               run_tool_calls S rest
                 (toolMessages @ [ToolMessage (tc_id toolCall) (Some (failure_result error))])
                 (r' \<lparr> console := console r' @
                    [ConsoleError (''Error executing '' @ function_name toolCall @ '':'') error] \<rparr>)))"

subsection \<open>The handler\<close>

record session =
  session_tokens :: "tokens option"
  session_userId :: "int option"

record chat_body =
  body_messages :: "json list option"
  body_events :: "canonical_event list option"
  body_timeZone :: "string option"

datatype response_json =
    ErrorBody string "string option"
  | ChatBody assistant_message bool
  | SuccessBody string

record http_response =
  status_code :: nat
  response_body :: response_json

text \<open>A template literal writes an absent value as \<^verbatim>\<open>undefined\<close>.\<close>

definition display :: "string option \<Rightarrow> string" where
  "display v = (case v of None \<Rightarrow> ''undefined'' | Some s \<Rightarrow> s)"

definition event_line :: "canonical_event \<Rightarrow> string" where
  "event_line e =
    ''- [ID: '' @ display (g_id e) @ ''] '' @ display (summary e) @ '' (''
    @ display (js_or (opt_chain (g_start e) dateTime) (opt_chain (g_start e) date)) @ '' to ''
    @ display (js_or (opt_chain (g_end e) dateTime) (opt_chain (g_end e) date)) @ '')''"

fun join_lines :: "string list \<Rightarrow> string" where
  "join_lines [] = []"
| "join_lines [l] = l"
| "join_lines (l # ls) = l @ [CHR 0x0A] @ join_lines ls"

definition events_text :: "canonical_event list option \<Rightarrow> string" where
  "events_text events =
    (case events of
       None \<Rightarrow> ''No events currently scheduled.''
     | Some es \<Rightarrow> if length es > 0 then join_lines (map event_line es)
                 else ''No events currently scheduled.'')"

text \<open>\<^verbatim>\<open>timeZone || events?.[0]?.start?.timeZone || 'UTC'\<close>\<close>

definition userTimeZone :: "chat_body \<Rightarrow> string" where
  "userTimeZone b =
    or_default
      (js_or (body_timeZone b)
         (opt_chain (opt_chain (opt_chain (body_events b) first_row) g_start) timeZone))
      ''UTC''"

definition systemPrompt :: "'w services \<Rightarrow> chat_body \<Rightarrow> string \<Rightarrow> system_prompt" where
  "systemPrompt S b weekday =
    \<lparr> prompt_events = events_text (body_events b),
      prompt_timeZone = userTimeZone b,
      prompt_now = toISOString_now S,
      prompt_weekday = weekday \<rparr>"

text \<open>The outer catch of the handler.\<close>

definition chat_failed :: "js_error \<Rightarrow> 'w run \<Rightarrow> http_response \<times> 'w run" where
  "chat_failed error r =
    (\<lparr> status_code = 500,
       response_body = ErrorBody (''Failed to process chat request: '' @ message error) None \<rparr>,
     r \<lparr> console := console r @
           [ConsoleError ''Error in chat:'' error,
            ConsoleErrorText ''Error details:'' (message error),
            ConsoleError ''Error stack:'' error] \<rparr>)"

definition first_message :: "assistant_message list \<Rightarrow> js_error + assistant_message" where
  "first_message choices =
    (case choices of
       [] \<Rightarrow> Inl (Error ''Cannot read properties of undefined (reading 'message')'')
     | m # _ \<Rightarrow> Inr m)"

definition first_request ::
  "js_string \<Rightarrow> string \<Rightarrow> system_prompt \<Rightarrow> json list \<Rightarrow> chat_completion_request" where
  "first_request userApiKey userModel prompt msgs =
    \<lparr> api_key = userApiKey, model = userModel,
      messages = SystemMessage prompt # map ClientMessage msgs, tools = True \<rparr>"

definition followUp_request ::
  "js_string \<Rightarrow> string \<Rightarrow> system_prompt \<Rightarrow> json list \<Rightarrow> message list \<Rightarrow> chat_completion_request" where
  "followUp_request userApiKey userModel prompt msgs toolMessages =
    \<lparr> api_key = userApiKey, model = userModel,
      messages = SystemMessage prompt # map ClientMessage msgs @ toolMessages, tools = False \<rparr>"

text \<open>From the composed prompt to the response: the two LLM turns around the loop.\<close>

definition chat_turns ::
  "'w services \<Rightarrow> js_string \<Rightarrow> string \<Rightarrow> chat_body \<Rightarrow> 'w run \<Rightarrow> http_response \<times> 'w run" where
  "chat_turns S userApiKey userModel b r =
    (case weekday_in S (userTimeZone b) of
       Inl error \<Rightarrow> chat_failed error r
     | Inr weekday \<Rightarrow>
         (case body_messages b of
            None \<Rightarrow> chat_failed (Error ''Cannot read properties of undefined (reading 'length')'') r
          | Some msgs \<Rightarrow>
              (case call_llm S (first_request userApiKey userModel (systemPrompt S b weekday) msgs) r of
                 (Inl error, r1) \<Rightarrow> chat_failed error r1
               | (Inr choices, r1) \<Rightarrow>
                   (case first_message choices of
                      Inl error \<Rightarrow> chat_failed error r1
                    | Inr assistantMessage \<Rightarrow>
                        (case tool_calls assistantMessage of
                           Some (toolCall # rest) \<Rightarrow>
                             (case run_tool_calls S (toolCall # rest)
                                     [AssistantMessage assistantMessage] r1 of
                                (Inl error, r2) \<Rightarrow> chat_failed error r2
                              | (Inr toolMessages, r2) \<Rightarrow>
                                  (case call_llm S
                                          (followUp_request userApiKey userModel
                                             (systemPrompt S b weekday) msgs toolMessages) r2 of
                                     (Inl error, r3) \<Rightarrow> chat_failed error r3
                                   | (Inr choices2, r3) \<Rightarrow>
                                       (case first_message choices2 of
                                          Inl error \<Rightarrow> chat_failed error r3
                                        | Inr final \<Rightarrow>
                                            (\<lparr> status_code = 200,
                                               response_body = ChatBody final True \<rparr>, r3))))
                         | _ \<Rightarrow>
                             (\<lparr> status_code = 200,
                                response_body = ChatBody assistantMessage False \<rparr>, r1))))))"

definition not_configured :: http_response where
  "not_configured =
    \<lparr> status_code = 403,
      response_body = ErrorBody ''OpenRouter API key not configured''
        (Some ''Please configure your OpenRouter API key in Settings before using the chat feature.'') \<rparr>"

text \<open>
  \<^verbatim>\<open>app.post('/api/chat', requireAuth, ...)\<close>: \<open>env\<close> is the configured
  \<^verbatim>\<open>ENCRYPTION_KEY\<close>, \<open>db\<close> the store.
\<close>

definition chat ::
  "'w services \<Rightarrow> string option \<Rightarrow> database \<Rightarrow> session \<Rightarrow> chat_body \<Rightarrow> 'w run \<Rightarrow> http_response \<times> 'w run" where
  "chat S env db session b r =
    (if session_tokens session = None
     then (\<lparr> status_code = 401, response_body = ErrorBody ''Not authenticated'' None \<rparr>, r)
     else case session_userId session of
       None \<Rightarrow> (\<lparr> status_code = 401, response_body = ErrorBody ''User not found in session'' None \<rparr>, r)
     | Some userId \<Rightarrow>
         if userId = 0
         then (\<lparr> status_code = 401, response_body = ErrorBody ''User not found in session'' None \<rparr>, r)
         else
           (case getUserSettings db userId of
              None \<Rightarrow> (not_configured, r)
            | Some settings \<Rightarrow>
                if \<not> truthy (openrouter_api_key_encrypted settings) then (not_configured, r)
                else
                  (case decryptApiKey env (openrouter_api_key_encrypted settings) (encryption_iv settings) of
                     (Inl error, logs) \<Rightarrow>
                       (\<lparr> status_code = 500,
                          response_body = ErrorBody ''Failed to decrypt API key''
                            (Some ''Please re-configure your API key in Settings.'') \<rparr>,
                        r \<lparr> console := console r @ logs @
                              [ConsoleError ''Failed to decrypt user API key:'' error] \<rparr>)
                   | (Inr userApiKey, logs) \<Rightarrow>
                       chat_turns S userApiKey
                         (or_default (openrouter_model settings) ''anthropic/claude-3.5-sonnet'')
                         b (r \<lparr> console := console r @ logs \<rparr>))))"

section \<open>The settings routes\<close>











section \<open>Properties of the chat endpoint\<close>

text \<open>Sample services: an LLM and a calendar that answer nothing useful and change nothing.\<close>

definition idle_services :: "unit services" where
  "idle_services =
    \<lparr> chat_completions_create = (\<lambda>request w. (Inl (Error ''503 Service Unavailable''), w)),
      calendar_events = (\<lambda>request w. (Inl (Error ''503 Service Unavailable''), w)),
      JSON_parse = (\<lambda>text. Inl (Error ''Unexpected end of JSON input'')),
      toISOString_now = ''2024-12-24T10:00:00.000Z'',
      weekday_in = (\<lambda>zone. Inr ''Tuesday'') \<rparr>"

definition fresh_run :: "unit run" where
  "fresh_run = \<lparr> world = (), llm_requests = [], calendar_requests = [], console = [] \<rparr>"

definition ann_session :: session where
  "ann_session = \<lparr> session_tokens = Some fresh_tokens, session_userId = Some 1 \<rparr>"

definition hello_body :: chat_body where
  "hello_body =
    \<lparr> body_messages = Some [JObj [(''role'', JStr ''user''), (''content'', JStr ''hello'')]],
      body_events = Some [timed_event],
      body_timeZone = Some ''Europe/London'' \<rparr>"

text \<open>The store after Ann's first login: her settings row holds no key yet.\<close>

definition ann_db :: database where
  "ann_db = snd (findOrCreateUser empty_db 100 (Some ''1084'') (Some ''ann@example.com'') (Some ''Ann''))"

text \<open>
  C7: for an authenticated user whose settings row is absent or holds no encrypted key,
  the chat request is answered 403 with the instruction to configure the key, and the
  request's record is as it was: no LLM request and no calendar request was made.
\<close>

theorem chat_without_key_is_forbidden:
  assumes "session_tokens session \<noteq> None"
    and "session_userId session = Some userId" and "userId \<noteq> 0"
    and "getUserSettings db userId = None
         \<or> (\<exists>settings. getUserSettings db userId = Some settings
               \<and> \<not> truthy (openrouter_api_key_encrypted settings))"
  shows "chat S env db session b r =
           (\<lparr> status_code = 403,
              response_body = ErrorBody ''OpenRouter API key not configured''
                (Some ''Please configure your OpenRouter API key in Settings before using the chat feature.'') \<rparr>,
            r)"
  using assms by (auto simp: chat_def not_configured_def)

lemma ann_db_settings:
  "getUserSettings ann_db 1 = Some (new_settings empty_db 100 1)"
  by (simp add: ann_db_def findOrCreateUser_def select_users_by_google_id_def empty_db_def
      insert_user_def insert_user_settings_def new_user_def new_settings_def varchar_def
      bind_text_def bind_err_def char_length_def Let_def first_row_def getUserSettings_def)

theorem chat_without_key_is_forbidden_witness:
  "session_tokens ann_session \<noteq> None \<and> session_userId ann_session = Some 1
   \<and> getUserSettings ann_db 1 = Some (new_settings empty_db 100 1)
   \<and> \<not> truthy (openrouter_api_key_encrypted (new_settings empty_db 100 1))
   \<and> status_code (fst (chat idle_services None ann_db ann_session hello_body fresh_run)) = 403
   \<and> llm_requests (snd (chat idle_services None ann_db ann_session hello_body fresh_run)) = []
   \<and> calendar_requests (snd (chat idle_services None ann_db ann_session hello_body fresh_run)) = []"
proof -
  have a: "session_tokens ann_session \<noteq> None" "session_userId ann_session = Some 1"
    by (simp_all add: ann_session_def)
  have k: "\<not> truthy (openrouter_api_key_encrypted (new_settings empty_db 100 1))"
    by (simp add: new_settings_def)
  have s: "getUserSettings ann_db 1 = None
         \<or> (\<exists>settings. getUserSettings ann_db 1 = Some settings
               \<and> \<not> truthy (openrouter_api_key_encrypted settings))"
    using ann_db_settings k by simp
  have f: "llm_requests fresh_run = []" "calendar_requests fresh_run = []"
    by (simp_all add: fresh_run_def)
  show ?thesis
    using chat_without_key_is_forbidden [OF a _ s, of idle_services None hello_body fresh_run]
      a ann_db_settings k f
    by simp
qed



lemma chat_with_key:
  assumes "session_tokens session \<noteq> None"
    and "session_userId session = Some userId" and "userId \<noteq> 0"
    and "getUserSettings db userId = Some settings"
    and "truthy (openrouter_api_key_encrypted settings)"
    and "decryptApiKey env (openrouter_api_key_encrypted settings) (encryption_iv settings)
           = (Inr userApiKey, logs)"
  shows "chat S env db session b r =
           chat_turns S userApiKey
             (or_default (openrouter_model settings) ''anthropic/claude-3.5-sonnet'')
             b (r \<lparr> console := console r @ logs \<rparr>)"
  using assms by (auto simp: chat_def)

lemma chat_turns_no_tool_calls:
  assumes "weekday_in S (userTimeZone b) = Inr weekday"
    and "body_messages b = Some msgs"
    and "chat_completions_create S
           (first_request userApiKey userModel (systemPrompt S b weekday) msgs) (world r)
           = (Inr (assistantMessage # others), w)"
    and "tool_calls assistantMessage = None \<or> tool_calls assistantMessage = Some []"
  shows "chat_turns S userApiKey userModel b r =
           (\<lparr> status_code = 200, response_body = ChatBody assistantMessage False \<rparr>,
            r \<lparr> world := w,
                llm_requests := llm_requests r
                  @ [first_request userApiKey userModel (systemPrompt S b weekday) msgs] \<rparr>)"
  using assms
  by (auto simp: chat_turns_def call_llm_def first_message_def)

text \<open>
  C5: when the first LLM response carries no \<^verbatim>\<open>tool_calls\<close>, or an empty array, the
  endpoint answers 200 with that assistant message as it is (and no
  \<^verbatim>\<open>toolCallsExecuted\<close>); the only request made is the first LLM request, and no
  calendar request.
\<close>

theorem chat_no_tool_calls:
  assumes "session_tokens session \<noteq> None"
    and "session_userId session = Some userId" and "userId \<noteq> 0"
    and "getUserSettings db userId = Some settings"
    and "truthy (openrouter_api_key_encrypted settings)"
    and "decryptApiKey env (openrouter_api_key_encrypted settings) (encryption_iv settings)
           = (Inr userApiKey, logs)"
    and "weekday_in S (userTimeZone b) = Inr weekday"
    and "body_messages b = Some msgs"
    and "chat_completions_create S
           (first_request userApiKey
              (or_default (openrouter_model settings) ''anthropic/claude-3.5-sonnet'')
              (systemPrompt S b weekday) msgs) (world r)
           = (Inr (assistantMessage # others), w)"
    and "tool_calls assistantMessage = None \<or> tool_calls assistantMessage = Some []"
  shows "chat S env db session b r =
           (\<lparr> status_code = 200, response_body = ChatBody assistantMessage False \<rparr>,
            r \<lparr> world := w,
                llm_requests := llm_requests r
                  @ [first_request userApiKey
                       (or_default (openrouter_model settings) ''anthropic/claude-3.5-sonnet'')
                       (systemPrompt S b weekday) msgs],
                console := console r @ logs \<rparr>)"
proof -
  let ?r = "r \<lparr> console := console r @ logs \<rparr>"
  have w: "world ?r = world r" by simp
  show ?thesis
    unfolding chat_with_key [OF assms(1-6)]
    using chat_turns_no_tool_calls [of S b weekday msgs userApiKey _ ?r, unfolded w, OF assms(7-10)]
    by simp
qed

subsection \<open>The loop goes on after a failure\<close>


lemma run_tool_calls_result:
  assumes "JSON_parse S (function_arguments toolCall) = Inr args"
    and "execute_tool S (function_name toolCall) args r = (Inr toolResult, r')"
  shows "run_tool_calls S (toolCall # rest) toolMessages r =
           run_tool_calls S rest (toolMessages @ [ToolMessage (tc_id toolCall) toolResult]) r'"
  using assms by simp

lemma execute_tool_unknown:
  assumes "functionName \<noteq> ''create_calendar_event''"
    and "functionName \<noteq> ''update_calendar_event''"
    and "functionName \<noteq> ''delete_calendar_events''"
  shows "execute_tool S functionName args r = (Inr None, r)"
  using assms by (simp add: execute_tool_def)



subsection \<open>What the loop leaves of the requests so far\<close>











text \<open>
  C4 (amended): for a tool call whose function name is none of the three and whose
  arguments parse, the loop performs no provider operation, pushes one tool message with
  the call's id and no content, and goes on with the remaining tool calls.
\<close>

theorem unknown_tool_is_answered_without_content:
  assumes "function_name toolCall \<noteq> ''create_calendar_event''"
    and "function_name toolCall \<noteq> ''update_calendar_event''"
    and "function_name toolCall \<noteq> ''delete_calendar_events''"
    and "JSON_parse S (function_arguments toolCall) = Inr args"
  shows "execute_tool S (function_name toolCall) args r = (Inr None, r)
       \<and> run_tool_calls S (toolCall # rest) toolMessages r =
           run_tool_calls S rest (toolMessages @ [ToolMessage (tc_id toolCall) None]) r"
proof -
  have e: "execute_tool S (function_name toolCall) args r = (Inr None, r)"
    using assms(1,2,3) by (rule execute_tool_unknown)
  have "run_tool_calls S (toolCall # rest) toolMessages r =
           run_tool_calls S rest (toolMessages @ [ToolMessage (tc_id toolCall) None]) r"
    using run_tool_calls_result [OF assms(4) e] .
  with e show ?thesis
    by (rule conjI)
qed

subsection \<open>A sample conversation\<close>

text \<open>
  A calendar whose first call is refused and whose later calls are answered (the world
  counts the calls), an LLM that plans two \<^verbatim>\<open>create_calendar_event\<close> calls and then
  repeats the errors it was told, and a parser for the two argument texts it sends.
\<close>

definition json_quote :: "string \<Rightarrow> string" where
  "json_quote s = [CHR 0x22] @ s @ [CHR 0x22]"

definition one_event_text :: string where
  "one_event_text =
    ''{'' @ json_quote ''events'' @ '':[{'' @ json_quote ''summary'' @ '':''
    @ json_quote ''Review'' @ ''}]}''"

definition one_event_args :: json where
  "one_event_args = JObj [(''events'', JArr [JObj [(''summary'', JStr ''Review'')]])]"

text \<open>Arguments cut off in the middle.\<close>

definition cut_off_text :: string where
  "cut_off_text = ''{'' @ json_quote ''events'' @ '':[''"

definition call_1 :: tool_call where
  "call_1 = \<lparr> tc_id = ''call_1'', function_name = ''create_calendar_event'',
               function_arguments = one_event_text \<rparr>"

definition call_2 :: tool_call where
  "call_2 = \<lparr> tc_id = ''call_2'', function_name = ''create_calendar_event'',
               function_arguments = one_event_text \<rparr>"

definition weather_call :: tool_call where
  "weather_call = \<lparr> tc_id = ''call_7'', function_name = ''get_weather'',
                     function_arguments = ''{}'' \<rparr>"

definition two_creates :: assistant_message where
  "two_creates = \<lparr> message_content = None, tool_calls = Some [call_1, call_2] \<rparr>"

definition error_text :: "message \<Rightarrow> string" where
  "error_text m =
    (case m of
       ToolMessage i (Some (JObj properties)) \<Rightarrow>
         (case map_of properties ''error'' of Some (JStr e) \<Rightarrow> e | _ \<Rightarrow> [])
     | _ \<Rightarrow> [])"

definition tool_errors :: "message list \<Rightarrow> string" where
  "tool_errors ms = concat (map error_text ms)"

definition flaky_services :: "nat services" where
  "flaky_services =
    \<lparr> chat_completions_create =
        (\<lambda>request w.
           (Inr [if tools request then two_creates
                 else \<lparr> message_content = Some (tool_errors (messages request)),
                        tool_calls = None \<rparr>], w)),
      calendar_events =
        (\<lambda>request w.
           (if w = 0 then Inl (Error ''Invalid Credentials: ya29.secret'')
            else Inr (JObj [(''id'', JStr ''evt1'')]), Suc w)),
      JSON_parse =
        (\<lambda>text. if text = one_event_text then Inr one_event_args
                 else if text = ''{}'' then Inr (JObj [])
                 else if text = cut_off_text then Inl (Error ''Unexpected end of JSON input'')
                 else Inl (Error ''Unexpected token'')),
      toISOString_now = ''2024-12-24T10:00:00.000Z'',
      weekday_in = (\<lambda>zone. Inr ''Tuesday'') \<rparr>"

definition start_run :: "nat run" where
  "start_run = \<lparr> world = 0, llm_requests = [], calendar_requests = [], console = [] \<rparr>"


definition hello_messages :: "json list" where
  "hello_messages = [JObj [(''role'', JStr ''user''), (''content'', JStr ''hello'')]]"


lemma parse_empty_object: "JSON_parse flaky_services ''{}'' = Inr (JObj [])"
  by (simp add: flaky_services_def one_event_text_def)











text \<open>
  C4 (as stated): no tool-result message is emitted for a tool call with an unknown
  name. One is: the push of the tool message comes after the try/catch, for every tool
  call, and here carries no content.
\<close>

theorem unknown_tool_message_is_pushed:
  "run_tool_calls flaky_services [weather_call] [] start_run =
     (Inr [ToolMessage ''call_7'' None], start_run)"
  by (simp add: weather_call_def parse_empty_object execute_tool_def)

theorem unknown_tool_is_answered_without_content_witness:
  "function_name weather_call \<noteq> ''create_calendar_event''
   \<and> function_name weather_call \<noteq> ''update_calendar_event''
   \<and> function_name weather_call \<noteq> ''delete_calendar_events''
   \<and> JSON_parse flaky_services (function_arguments weather_call) = Inr (JObj [])
   \<and> execute_tool flaky_services (function_name weather_call) (JObj []) start_run
       = (Inr None, start_run)
   \<and> run_tool_calls flaky_services [weather_call, call_1] [] start_run =
       run_tool_calls flaky_services [call_1] [ToolMessage ''call_7'' None] start_run"
proof -
  have n: "function_name weather_call \<noteq> ''create_calendar_event''"
    "function_name weather_call \<noteq> ''update_calendar_event''"
    "function_name weather_call \<noteq> ''delete_calendar_events''"
    by (simp_all add: weather_call_def)
  have p: "JSON_parse flaky_services (function_arguments weather_call) = Inr (JObj [])"
    by (simp add: weather_call_def parse_empty_object)
  have i: "tc_id weather_call = ''call_7''"
    by (simp add: weather_call_def)
  show ?thesis
    using unknown_tool_is_answered_without_content [OF n p, of start_run "[call_1]" "[]"] n p
    by (simp add: i)
qed










subsection \<open>A user with a stored key\<close>

definition sample_key_hex :: string where
  "sample_key_hex = ''000102030405060708090a0b0c0d0e0f101112131415161718191a1b1c1d1e1f''"

text \<open>What \<^verbatim>\<open>encryptApiKey('sk-or-v1-abc')\<close> returns under the sample key and vector.\<close>

definition stored_key :: encrypted_key where
  "stored_key =
    \<lparr> encrypted = cipher_update_final (hex_decode sample_key_hex) sample_iv (js_text ''sk-or-v1-abc''),
      iv_hex = hex_encode sample_iv \<rparr>"

definition ann_key_db :: database where
  "ann_key_db =
    \<lparr> users = [new_user empty_db 100 (Some ''1084'') (Some ''ann@example.com'') (Some ''Ann'')],
      user_settings =
        [(new_settings empty_db 100 1)
           \<lparr> openrouter_api_key_encrypted := Some (encrypted stored_key),
             openrouter_model := Some ''openai/gpt-4o'',
             encryption_iv := Some (iv_hex stored_key),
             s_updated_at := 200 \<rparr>],
      users_id_seq = 2, user_settings_id_seq = 2 \<rparr>"

definition greeting :: assistant_message where
  "greeting = \<lparr> message_content = Some ''Hello Ann, your calendar is free today.'',
                 tool_calls = Some [] \<rparr>"

definition talkative_services :: "unit services" where
  "talkative_services =
    idle_services \<lparr> chat_completions_create := (\<lambda>request w. (Inr [greeting], w)) \<rparr>"


lemma sample_key_hex_valid:
  "sample_key_hex \<noteq> []" "length (hex_decode sample_key_hex) = 32" "length sample_iv = 16"
proof -
  show "sample_key_hex \<noteq> []"
    by (simp add: sample_key_hex_def)
  show "length (hex_decode sample_key_hex) = 32"
    unfolding sample_key_hex_def by (rule sample_key_valid)
  show "length sample_iv = 16"
    by (simp add: sample_iv_def)
qed

lemma stored_key_not_empty: "encrypted stored_key \<noteq> []"
proof -
  have "aes_256_cbc_encrypt (hex_decode sample_key_hex) sample_iv (utf8_bytes (js_text ''sk-or-v1-abc'')) \<noteq> []"
    by (rule aes_256_cbc_roundtrip(2) [OF sample_key_hex_valid(2,3)])
  then show ?thesis
    by (simp add: stored_key_def cipher_update_final_def hex_encode_Nil_iff)
qed

lemma stored_key_decrypts:
  "decryptApiKey (Some sample_key_hex) (Some (encrypted stored_key)) (Some (iv_hex stored_key))
     = (Inr (js_text ''sk-or-v1-abc''), [])"
  using decryptApiKey_of_encrypted [OF sample_key_hex_valid, of "js_text ''sk-or-v1-abc''"]
    isWellFormed_sample
  by (simp add: stored_key_def toWellFormed_fixed [THEN iffD2])

theorem chat_no_tool_calls_witness:
  "tool_calls greeting = Some []
   \<and> chat talkative_services (Some sample_key_hex) ann_key_db ann_session hello_body fresh_run =
       (\<lparr> status_code = 200, response_body = ChatBody greeting False \<rparr>,
        \<lparr> world = (),
          llm_requests =
            [first_request (js_text ''sk-or-v1-abc'') ''openai/gpt-4o''
               (systemPrompt talkative_services hello_body ''Tuesday'') hello_messages],
          calendar_requests = [],
          console = [] \<rparr>)"
proof -
  let ?settings = "(new_settings empty_db 100 1)
           \<lparr> openrouter_api_key_encrypted := Some (encrypted stored_key),
             openrouter_model := Some ''openai/gpt-4o'',
             encryption_iv := Some (iv_hex stored_key),
             s_updated_at := 200 \<rparr>"
  have a: "session_tokens ann_session \<noteq> None" "session_userId ann_session = Some 1" "(1::int) \<noteq> 0"
    by (simp_all add: ann_session_def)
  have s: "getUserSettings ann_key_db 1 = Some ?settings"
    by (simp add: getUserSettings_def ann_key_db_def new_settings_def first_row_def)
  have k: "truthy (openrouter_api_key_encrypted ?settings)"
    using stored_key_not_empty by simp
  have d: "decryptApiKey (Some sample_key_hex) (openrouter_api_key_encrypted ?settings)
             (encryption_iv ?settings) = (Inr (js_text ''sk-or-v1-abc''), [])"
    using stored_key_decrypts by simp
  have w: "weekday_in talkative_services (userTimeZone hello_body) = Inr ''Tuesday''"
    by (simp add: talkative_services_def idle_services_def)
  have m: "body_messages hello_body = Some hello_messages"
    by (simp add: hello_body_def hello_messages_def)
  have mdl: "or_default (openrouter_model ?settings) ''anthropic/claude-3.5-sonnet'' = ''openai/gpt-4o''"
    by (simp add: or_default_def js_or_def)
  have c: "chat_completions_create talkative_services
             (first_request (js_text ''sk-or-v1-abc'')
                (or_default (openrouter_model ?settings) ''anthropic/claude-3.5-sonnet'')
                (systemPrompt talkative_services hello_body ''Tuesday'') hello_messages)
             (world fresh_run) = (Inr (greeting # []), ())"
    by (simp add: talkative_services_def)
  have t: "tool_calls greeting = None \<or> tool_calls greeting = Some []"
    by (simp add: greeting_def)
  have g: "tool_calls greeting = Some []"
    by (simp add: greeting_def)
  show ?thesis
    using chat_no_tool_calls [OF a s k d w m c t] g
    by (simp add: fresh_run_def or_default_def js_or_def)
qed

section \<open>The key and its vector are stored together\<close>


lemma varchar_null: "varchar n None = Inr None"
  by (simp add: varchar_def)




lemma deleteUserApiKey_succeeds: "\<exists>row. fst (deleteUserApiKey db now userId) = Inr row"
  by (simp add: deleteUserApiKey_def query_def Let_def)





































end
